theory Spec2Isabelle
  imports Main
begin

section \<open>Strings and regular expressions as the source uses them\<close>

text \<open>
  Identifiers and paths are JavaScript strings; they are modelled as \<open>string\<close>, one
  \<open>char\<close> per code unit (8-bit characters). The regular expressions of the source
  are written out as the functions that compute their capture groups.
\<close>

definition slash :: char where
  "slash = CHR ''/''"

definition lineTerminator :: "char \<Rightarrow> bool" where
  \<comment> \<open>the 8-bit characters the regular-expression dot does not match\<close>
  "lineTerminator c = (c = CHR 0x0A \<or> c = CHR 0x0D)"

definition dotStar :: "string \<Rightarrow> string" where
  \<comment> \<open>the text captured by a greedy \<open>(.*)\<close> at the start of the given text\<close>
  "dotStar s = takeWhile (\<lambda>c. \<not> lineTerminator c) s"

definition noSlash :: "string \<Rightarrow> string" where
  \<comment> \<open>the longest prefix matched by \<open>[^/]*\<close>\<close>
  "noSlash s = takeWhile (\<lambda>c. c \<noteq> slash) s"

definition afterNoSlash :: "string \<Rightarrow> string" where
  "afterNoSlash s = dropWhile (\<lambda>c. c \<noteq> slash) s"

fun join :: "string \<Rightarrow> string list \<Rightarrow> string" where
  \<comment> \<open>\<open>Array.prototype.join\<close>\<close>
  "join sep [] = []"
| "join sep [x] = x"
| "join sep (x # y # ys) = x @ sep @ join sep (y # ys)"

fun split :: "char \<Rightarrow> string \<Rightarrow> string list" where
  \<comment> \<open>\<open>String.prototype.split\<close> on a one-character separator\<close>
  "split d [] = [[]]"
| "split d (c # cs) =
     (if c = d then [] # split d cs
      else (case split d cs of [] \<Rightarrow> [[c]] | p # ps \<Rightarrow> (c # p) # ps))"

section \<open>Module-name parsing (SassImplementation.ts, \<open>MODULE_PARSER\<close>)\<close>

definition scopedSegment :: "string \<Rightarrow> (string \<times> string) option" where
  \<comment> \<open>first alternative, \<open>@[^/]+\/[^/]+\<close>: the text matched and the text after it\<close>
  "scopedSegment uri =
     (case uri of
        [] \<Rightarrow> None
      | c # cs \<Rightarrow>
          if c \<noteq> CHR ''@'' \<or> noSlash cs = [] then None
          else (case afterNoSlash cs of
                  [] \<Rightarrow> None
                | _ # r \<Rightarrow>
                    if noSlash r = [] then None
                    else Some (c # noSlash cs @ [slash] @ noSlash r, afterNoSlash r)))"

definition bareSegment :: "string \<Rightarrow> (string \<times> string) option" where
  \<comment> \<open>second alternative, \<open>[^/]+\<close>\<close>
  "bareSegment uri =
     (if noSlash uri = [] then None else Some (noSlash uri, afterNoSlash uri))"

definition optionalSlash :: "string \<Rightarrow> string" where
  \<comment> \<open>the text left after a greedy \<open>\/?\<close>\<close>
  "optionalSlash s = (case s of [] \<Rightarrow> [] | c # cs \<Rightarrow> if c = slash then cs else s)"

definition MODULE_PARSER :: "string \<Rightarrow> (string \<times> string) option" where
  \<comment> \<open>\<open>MODULE_PARSER.exec(uri)\<close>: \<open>None\<close> is no match, otherwise groups 1 and 2\<close>
  "MODULE_PARSER uri =
     (case (case scopedSegment uri of Some r \<Rightarrow> Some r | None \<Rightarrow> bareSegment uri) of
        None \<Rightarrow> None
      | Some (moduleName, rest) \<Rightarrow> Some (moduleName, dotStar (optionalSlash rest)))"

definition isScopedName :: "string \<Rightarrow> bool" where
  \<comment> \<open>the shape \<open>@scope/name\<close>: exactly two non-empty segments, the first an \<open>@\<close> and more\<close>
  "isScopedName m =
     (case split slash m of
        [a, b] \<Rightarrow> (case a of [] \<Rightarrow> False | c # s \<Rightarrow> c = CHR ''@'' \<and> s \<noteq> []) \<and> b \<noteq> []
      | _ \<Rightarrow> False)"

definition isBareName :: "string \<Rightarrow> bool" where
  \<comment> \<open>a single non-empty segment\<close>
  "isBareName m = (m \<noteq> [] \<and> slash \<notin> set m)"

section \<open>The host's path module (Node.js \<open>path\<close>, POSIX flavour)\<close>

text \<open>
  The source calls \<open>path.resolve\<close>, \<open>path.relative\<close>, \<open>path.join\<close>, \<open>path.dirname\<close>
  and \<open>path.normalize\<close> of the Node.js standard library. They are modelled on path
  segments, for a POSIX host; \<open>cwd\<close> stands for \<open>process.cwd()\<close>, an absolute path.
\<close>

definition path_sep :: string where
  "path_sep = ''/''"

definition isAbsolute :: "string \<Rightarrow> bool" where
  "isAbsolute p = (case p of [] \<Rightarrow> False | c # _ \<Rightarrow> c = slash)"

fun normalizeArray :: "bool \<Rightarrow> string list \<Rightarrow> string list \<Rightarrow> string list" where
  \<comment> \<open>collapses empty, \<open>.\<close> and \<open>..\<close> segments; the second argument is the stack of
      segments kept so far, innermost first\<close>
  "normalizeArray allowAboveRoot acc [] = rev acc"
| "normalizeArray allowAboveRoot acc (s # ss) =
     (if s = [] \<or> s = ''.'' then normalizeArray allowAboveRoot acc ss
      else if s = ''..'' then
        (case acc of
           [] \<Rightarrow> normalizeArray allowAboveRoot (if allowAboveRoot then [''..''] else []) ss
         | t # ts \<Rightarrow>
             if t = ''..'' then
               normalizeArray allowAboveRoot (if allowAboveRoot then ''..'' # acc else acc) ss
             else normalizeArray allowAboveRoot ts ss)
      else normalizeArray allowAboveRoot (s # acc) ss)"

fun resolvedPath :: "string list \<Rightarrow> string" where
  \<comment> \<open>\<open>path.resolve\<close> before normalization: the arguments are taken from the right until
      one is absolute; empty arguments are skipped\<close>
  "resolvedPath [] = []"
| "resolvedPath (p # ps) =
     (let r = resolvedPath ps
      in if isAbsolute r then r else if p = [] then r else p @ [slash] @ r)"

definition resolveSegments :: "string \<Rightarrow> string list \<Rightarrow> string list" where
  "resolveSegments cwd args =
     (let r = resolvedPath (cwd # args)
      in normalizeArray (\<not> isAbsolute r) [] (split slash r))"

definition path_resolve :: "string \<Rightarrow> string list \<Rightarrow> string" where
  "path_resolve cwd args =
     (let segs = resolveSegments cwd args
      in if isAbsolute (resolvedPath (cwd # args)) then slash # join ''/'' segs
         else if segs = [] then ''.'' else join ''/'' segs)"

fun stripCommon :: "string list \<Rightarrow> string list \<Rightarrow> string list \<times> string list" where
  \<comment> \<open>drops the longest common prefix of segments\<close>
  "stripCommon (x # xs) (y # ys) = (if x = y then stripCommon xs ys else (x # xs, y # ys))"
| "stripCommon xs ys = (xs, ys)"

definition path_relative :: "string \<Rightarrow> string \<Rightarrow> string \<Rightarrow> string" where
  \<comment> \<open>\<open>path.relative(from, to)\<close>: one \<open>..\<close> for each segment of \<open>from\<close> below the common
      ancestor, then the segments of \<open>to\<close> below it\<close>
  "path_relative cwd from to =
     (case stripCommon (resolveSegments cwd [from]) (resolveSegments cwd [to]) of
        (up, down) \<Rightarrow> join ''/'' (map (\<lambda>_. ''..'') up @ down))"

definition path_normalize :: "string \<Rightarrow> string" where
  "path_normalize p =
     (if p = [] then ''.''
      else
        let segs = join ''/'' (normalizeArray (\<not> isAbsolute p) [] (split slash p));
            trailing = (last p = slash)
        in if segs = [] then (if isAbsolute p then ''/'' else if trailing then ''./'' else ''.'')
           else (if isAbsolute p then ''/'' else []) @ segs @ (if trailing then ''/'' else []))"

definition path_join :: "string list \<Rightarrow> string" where
  "path_join args =
     (case filter (\<lambda>a. a \<noteq> []) args of
        [] \<Rightarrow> ''.''
      | present \<Rightarrow> path_normalize (join ''/'' present))"

definition path_dirname :: "string \<Rightarrow> string" where
  \<comment> \<open>scans from the right, below index 1: trailing slashes, then the last segment, stop at
      the slash before it\<close>
  "path_dirname p =
     (case p of
        [] \<Rightarrow> ''.''
      | c # cs \<Rightarrow>
          let scanned = dropWhile (\<lambda>x. x \<noteq> slash) (dropWhile (\<lambda>x. x = slash) (rev cs))
          in if scanned = [] then (if c = slash then ''/'' else ''.'')
             else if c = slash \<and> length scanned = 1 then ''//''
             else c # rev (tl scanned))"

section \<open>Imports: data, configuration and effects\<close>

record ImportedFile =
  contents :: string
  "file" :: string

datatype ImporterReturnType =
    ReturnFile ImportedFile   \<comment> \<open>\<open>{contents, file}\<close>\<close>
  | ReturnError string        \<comment> \<open>\<open>new Error(message)\<close>\<close>
  | SassNULL                  \<comment> \<open>\<open>sass.NULL\<close>, nothing usable\<close>

record module =
  name :: string
  sassDir :: "string option"
  mainPath :: "string option"

text \<open>
  What one call of an importer can see and use: the file system, the process, the options
  and the collaborators. \<open>readFileSync\<close> is \<open>None\<close> where the read throws.
  \<open>NameExpander uri locations\<close> is the iteration order of \<open>nameExpander.files\<close> after
  \<open>new NameExpander(uri)\<close> and one \<open>addLocation\<close> per entry of \<open>locations\<close>; the
  expander's own code is not among the source files, so it is a parameter.
\<close>

record env =
  cwd :: string
  existsSync :: "string \<Rightarrow> bool"
  readFileSync :: "string \<Rightarrow> string option"
  NameExpander :: "string \<Rightarrow> string list \<Rightarrow> string list"
  modules_access :: "string \<Rightarrow> string \<Rightarrow> module option"
  fallbackImporter :: "string \<Rightarrow> string \<Rightarrow> ImporterReturnType"
  includePaths :: "string list option"
  root :: string
  fsSandbox :: "string list option"

datatype event =
    Access string string            \<comment> \<open>\<open>eyeglass.modules.access(name, origin)\<close>\<close>
  | ReadFile string                 \<comment> \<open>\<open>readFileSync(path)\<close>\<close>
  | FallbackInvoked string string   \<comment> \<open>the fallback importer called with \<open>(uri, prev)\<close>\<close>

datatype outcome =
    Done ImporterReturnType   \<comment> \<open>\<open>done(value)\<close>\<close>
  | ImportOnce ImportedFile   \<comment> \<open>\<open>importUtils.importOnce(data, done)\<close>\<close>
  | Throw string              \<comment> \<open>an exception leaves the importer\<close>

type_synonym run = "event list \<times> outcome"

definition emit :: "event \<Rightarrow> run \<Rightarrow> run" where
  "emit e r = (e # fst r, snd r)"

definition truthy :: "string option \<Rightarrow> bool" where
  \<comment> \<open>JavaScript truth of a \<open>string | undefined\<close>\<close>
  "truthy v = (case v of None \<Rightarrow> False | Some s \<Rightarrow> s \<noteq> [])"

definition str :: "string option \<Rightarrow> string" where
  \<comment> \<open>the text of a value that passed \<open>truthy\<close>\<close>
  "str v = (case v of None \<Rightarrow> [] | Some s \<Rightarrow> s)"

text \<open>
  Modelled from the spec: \<open>ImportUtilities.fallback(uri, prev, done, noFallback)\<close>, whose
  code is missing from the sources. Section 4.5, step 4: invoke the external fallback
  resolver with the original identifier; its result, when usable, is the result of the
  import; if it reports nothing usable, continue with what the caller supplied for that
  case.
\<close>

definition fallback :: "env \<Rightarrow> string \<Rightarrow> string \<Rightarrow> run \<Rightarrow> run" where
  "fallback e uri prev noFallback =
     (case fallbackImporter e uri prev of
        SassNULL \<Rightarrow> emit (FallbackInvoked uri prev) noFallback
      | result \<Rightarrow> ([FallbackInvoked uri prev], Done result))"

section \<open>The module importer (SassImplementation.ts, second part)\<close>

definition notFoundMessage :: "string \<Rightarrow> string list \<Rightarrow> string" where
  \<comment> \<open>\<open>errorMsg\<close> of \<open>readFirstFile\<close>\<close>
  "notFoundMessage uri possibleFiles =
     join [CHR 0x0A, CHR '' '', CHR '' '']
       ((''Could not import '' @ uri @ '' from any of the following locations:'') # possibleFiles)"

fun readLoop ::
  "env \<Rightarrow> string \<Rightarrow> string list \<Rightarrow> string list \<Rightarrow> (string option \<Rightarrow> ImportedFile option \<Rightarrow> run) \<Rightarrow> run"
where
  \<comment> \<open>the \<open>for\<close> loop of \<open>readFirstFile\<close> over the files not yet tried\<close>
  "readLoop e uri possibleFiles [] callback =
     callback (Some (notFoundMessage uri possibleFiles)) None"
| "readLoop e uri possibleFiles (nextFile # later) callback =
     emit (ReadFile nextFile)
       (case readFileSync e nextFile of
          Some data \<Rightarrow> callback None (Some \<lparr>contents = data, file = nextFile\<rparr>)
        | None \<Rightarrow> readLoop e uri possibleFiles later callback)"

definition readFirstFile ::
  "env \<Rightarrow> string \<Rightarrow> string list \<Rightarrow> (string option \<Rightarrow> ImportedFile option \<Rightarrow> run) \<Rightarrow> run"
where
  "readFirstFile e uri possibleFiles callback = readLoop e uri possibleFiles possibleFiles callback"

definition locations ::
  "env \<Rightarrow> string \<Rightarrow> string list option \<Rightarrow> string option \<Rightarrow> string list" where
  \<comment> \<open>the \<open>addLocation\<close> calls of \<open>readAbstractFile\<close>, in order\<close>
  "locations e location includes moduleName =
     [location]
     @ (if truthy moduleName then [path_join [location, str moduleName]] else [])
     @ (case includes of
          None \<Rightarrow> []
        | Some ps \<Rightarrow> map (\<lambda>includePath. path_resolve (cwd e) [location, includePath]) ps)"

definition readAbstractFile ::
  "env \<Rightarrow> string \<Rightarrow> string \<Rightarrow> string \<Rightarrow> string list option \<Rightarrow> string option
     \<Rightarrow> (string option \<Rightarrow> ImportedFile option \<Rightarrow> run) \<Rightarrow> run"
where
  "readAbstractFile e originalUri uri location includes moduleName callback =
     readFirstFile e originalUri (NameExpander e uri (locations e location includes moduleName))
       callback"

definition defaultErrorHandler :: "string \<Rightarrow> run" where
  "defaultErrorHandler err = ([], Done (ReturnError err))"

definition createHandler ::
  "env \<Rightarrow> string \<Rightarrow> string \<Rightarrow> (string \<Rightarrow> run) option
     \<Rightarrow> string option \<Rightarrow> ImportedFile option \<Rightarrow> run"
where
  \<comment> \<open>the callback returned by \<open>createHandler(errorHandler)\<close>, applied to \<open>(err, data)\<close>\<close>
  "createHandler e uri prev errorHandler err imported =
     (let errHandler = (case errorHandler of Some h \<Rightarrow> h | None \<Rightarrow> defaultErrorHandler)
      in case (err, imported) of
           (None, Some d) \<Rightarrow> ([], ImportOnce d)
         | (Some msg, _) \<Rightarrow> fallback e uri prev (errHandler msg)
         | (None, None) \<Rightarrow>
             fallback e uri prev (errHandler ''[internal error] No data returned.''))"

definition handleRelativeImports ::
  "env \<Rightarrow> string \<Rightarrow> string \<Rightarrow> string list option \<Rightarrow> run" where
  "handleRelativeImports e uri prev includes =
     (if existsSync e prev then
        readAbstractFile e uri uri (path_dirname prev) includes None (createHandler e uri prev None)
      else
        readAbstractFile e uri uri (root e) includes None
          (createHandler e uri prev
             (Some (\<lambda>_. ([], Done (ReturnError (''Could not import '' @ uri @ '' from '' @ prev)))))))"

definition piece :: "string list \<Rightarrow> nat \<Rightarrow> string" where
  \<comment> \<open>\<open>pieces[i]\<close> inside a string concatenation: a missing element reads as \<open>undefined\<close>\<close>
  "piece pieces i = (if i < length pieces then pieces ! i else ''undefined'')"

definition lookupModule ::
  "env \<Rightarrow> string \<Rightarrow> string \<Rightarrow> string \<Rightarrow> event list \<times> string \<times> string \<times> module option" where
  \<comment> \<open>lines 263 to 275: the lookup and its back-compat retry; the result is the calls made
      and the values of \<open>moduleName\<close>, \<open>relativePath\<close> and \<open>mod\<close> afterwards\<close>
  "lookupModule e moduleName relativePath origin =
     (case modules_access e moduleName origin of
        Some m \<Rightarrow> ([Access moduleName origin], moduleName, relativePath, Some m)
      | None \<Rightarrow>
          if take 1 moduleName = ''@'' then
            let pieces = split slash moduleName
            in ([Access moduleName origin, Access (piece pieces 0) origin],
                piece pieces 0,
                piece pieces 1 @ ''/'' @ relativePath,
                modules_access e (piece pieces 0) origin)
          else ([Access moduleName origin], moduleName, relativePath, None))"

definition missingMessage :: "module \<Rightarrow> string" where
  "missingMessage m =
     ''sassDir is not specified in '' @ name m @ [CHR 0x27] @ ''s package.json''
     @ (if truthy (mainPath m) then '' or '' @ str (mainPath m) else [])"

definition after :: "event list \<Rightarrow> run \<Rightarrow> run" where
  \<comment> \<open>the calls made before the rest of the run\<close>
  "after calls r = (calls @ fst r, snd r)"

definition importFrom ::
  "env \<Rightarrow> string \<Rightarrow> string \<Rightarrow> string \<Rightarrow> string \<Rightarrow> string option \<Rightarrow> run" where
  \<comment> \<open>lines 321 to 331, \<open>if (sassDir) ... else ...\<close>\<close>
  "importFrom e uri prev moduleName relativePath sassDirectory =
     (if truthy sassDirectory then
        readAbstractFile e uri relativePath (str sassDirectory) None (Some moduleName)
          (createHandler e uri prev (Some (\<lambda>_. handleRelativeImports e uri prev None)))
      else handleRelativeImports e uri prev (includePaths e))"

definition ModuleImporter :: "env \<Rightarrow> string \<Rightarrow> string \<Rightarrow> run" where
  "ModuleImporter e uri prev =
     (case MODULE_PARSER uri of
        None \<Rightarrow> ([], Throw (''invalid uri: '' @ uri))
      | Some (parsedName, parsedPath) \<Rightarrow>
          (case lookupModule e parsedName parsedPath (if existsSync e prev then prev else root e) of
             (calls, moduleName, relativePath, found) \<Rightarrow>
               after calls
                 (case found of
                    None \<Rightarrow> importFrom e uri prev moduleName relativePath None
                  | Some m \<Rightarrow>
                      if \<not> truthy (sassDir m) \<and> \<not> existsSync e prev then
                        fallback e uri prev ([], Done (ReturnError (missingMessage m)))
                      else importFrom e uri prev moduleName relativePath (sassDir m))))"

section \<open>The virtual path scheme (FSImporter)\<close>

definition identifierStart :: "char \<Rightarrow> bool" where
  \<comment> \<open>\<open>[-_a-zA-Z]\<close>\<close>
  "identifierStart c =
     (c \<in> set ''-_abcdefghijklmnopqrstuvwxyzABCDEFGHIJKLMNOPQRSTUVWXYZ'')"

definition identifierChar :: "char \<Rightarrow> bool" where
  \<comment> \<open>\<open>[-_a-zA-Z0-9]\<close>\<close>
  "identifierChar c = (identifierStart c \<or> c \<in> set ''0123456789'')"

definition fsURI :: "string \<Rightarrow> string option" where
  \<comment> \<open>\<open>uri.match(fsURI)\<close>: group 1 of \<open>^fs\(([-_a-zA-Z][-_a-zA-Z0-9]+)\)$\<close>\<close>
  "fsURI uri =
     (let identifier = butlast (drop 3 uri)
      in if take 3 uri = ''fs('' \<and> drop 3 uri \<noteq> [] \<and> last uri = CHR '')''
            \<and> (case identifier of
                  [] \<Rightarrow> False
                | c # cs \<Rightarrow> identifierStart c \<and> cs \<noteq> [] \<and> list_all identifierChar cs)
         then Some identifier else None)"

definition registration :: "string \<Rightarrow> string \<Rightarrow> ImportedFile" where
  \<comment> \<open>the synthesized stylesheet, \<open>data\<close>\<close>
  "registration identifier absolutePath =
     \<lparr>contents = ''@import '' @ [CHR 0x22] @ ''eyeglass/fs'' @ [CHR 0x22]
                  @ ''; @include fs-register-path('' @ identifier @ '', '' @ [CHR 0x22]
                  @ absolutePath @ [CHR 0x22] @ '');'',
      file = ''fs:'' @ identifier @ '':'' @ absolutePath\<rparr>"

definition FSImporter :: "env \<Rightarrow> string \<Rightarrow> string \<Rightarrow> run" where
  "FSImporter e uri prev =
     (case fsURI uri of
        Some identifier \<Rightarrow>
          (let absolutePath =
                 (if identifier = ''root'' then root e
                  else if \<not> existsSync e prev then path_resolve (cwd e) [''.'']
                  else path_resolve (cwd e) [path_dirname prev])
           in if absolutePath \<noteq> [] then ([], ImportOnce (registration identifier absolutePath))
              else ([], Done (ReturnError (''Cannot resolve filesystem location of '' @ prev))))
      | None \<Rightarrow> fallback e uri prev ([], Done SassNULL))"

section \<open>Stylesheet values and type errors (SassImplementation.ts, first part)\<close>

text \<open>
  A number is held by the text JavaScript prints for it and its unit, a colour by the
  texts of its four channels, and a map key by the text it contributes to a string
  concatenation.
\<close>

datatype SassValue =
    SassNumber string string
  | SassString string
  | SassColor string string string string
  | SassBoolean bool
  | SassNull
  | SassList "SassValue list" bool    \<comment> \<open>the items and \<open>getSeparator()\<close>\<close>
  | SassMap "(string \<times> SassValue) list"

datatype ReturnValue =
    Value SassValue
  | SassError string    \<comment> \<open>\<open>sass.types.Error(message)\<close>\<close>

fun toString :: "SassValue \<Rightarrow> string" where
  "toString (SassNumber v u) = v @ u"
| "toString (SassString s) = s"
| "toString (SassColor r g b a) = ''rgba('' @ r @ '', '' @ g @ '', '' @ b @ '', '' @ a @ '')''"
| "toString (SassBoolean b) = (if b then ''true'' else ''false'')"
| "toString (SassList items comma) =
     ''('' @ join (if comma then '', '' else '' '') (map toString items) @ '')''"
| "toString (SassMap entries) =
     ''('' @ join '', '' (map (\<lambda>(k, v). k @ '': '' @ toString v) entries) @ '')''"
| "toString SassNull = []"

fun typeName :: "SassValue \<Rightarrow> string" where
  "typeName SassNull = ''null''"
| "typeName (SassString _) = ''string''"
| "typeName (SassNumber _ _) = ''number''"
| "typeName (SassMap _) = ''map''"
| "typeName (SassList _ _) = ''list''"
| "typeName (SassColor _ _ _ _) = ''color''"
| "typeName (SassBoolean _) = ''boolean''"

definition typeError :: "string \<Rightarrow> string + SassValue \<Rightarrow> ReturnValue" where
  \<comment> \<open>\<open>actual\<close> is a type name (\<open>Inl\<close>) or a value (\<open>Inr\<close>)\<close>
  "typeError expected actual =
     SassError (''Expected '' @ expected @ '', got ''
                @ (case actual of Inl n \<Rightarrow> n | Inr v \<Rightarrow> typeName v @ '': '' @ toString v))"

section \<open>The sandbox and the file-system functions (fs.ts)\<close>

definition pathInSandboxDir :: "string \<Rightarrow> string \<Rightarrow> string \<Rightarrow> bool" where
  \<comment> \<open>the first argument is the process's working directory\<close>
  "pathInSandboxDir wd fsPath sandboxDir =
     (if take 2 (path_relative wd sandboxDir fsPath) = ''..'' then False else True)"

definition accessViolation :: "string \<Rightarrow> ReturnValue" where
  "accessViolation location = SassError (''Security violation: Cannot access '' @ location)"

definition inSandbox :: "env \<Rightarrow> string \<Rightarrow> bool" where
  "inSandbox e fsPath =
     (case fsSandbox e of
        None \<Rightarrow> True
      | Some sandbox \<Rightarrow> list_ex (\<lambda>sb. if pathInSandboxDir (cwd e) fsPath sb then True else False) sandbox)"

datatype call =
    Returned ReturnValue   \<comment> \<open>\<open>done(value)\<close>\<close>
  | Raised                 \<comment> \<open>an exception leaves the function\<close>

text \<open>
  The libraries the functions call: \<open>castToJs\<close> and \<open>castToSass\<close> of node-sass-utils,
  \<open>path.join.apply(null, x)\<close> (\<open>None\<close> where it throws) and \<open>glob\<close> (an error message
  or the matches, directories marked with a final slash).
\<close>

record 'js lib =
  castToJs :: "SassValue \<Rightarrow> 'js"
  castToSass :: "string list \<Rightarrow> SassValue"
  path_join_apply :: "'js \<Rightarrow> string option"
  glob :: "string \<Rightarrow> string \<Rightarrow> string + string list"

fun globLoop ::
  "env \<Rightarrow> 'js lib \<Rightarrow> string \<Rightarrow> bool \<Rightarrow> bool \<Rightarrow> string list \<Rightarrow> string list \<Rightarrow> call" where
  \<comment> \<open>the \<open>for\<close> loop of \<open>globFiles\<close>; the last argument is \<open>filesToReturn\<close>\<close>
  "globLoop e l directory includeFiles includeDirectories [] filesToReturn =
     Returned (Value (castToSass l filesToReturn))"
| "globLoop e l directory includeFiles includeDirectories (f # later) filesToReturn =
     (let endsWithSlash = (f \<noteq> [] \<and> last f = slash)
      in if endsWithSlash \<and> includeDirectories then
           (if \<not> inSandbox e (path_join [directory, f]) then Returned (accessViolation f)
            else globLoop e l directory includeFiles includeDirectories later
                   (filesToReturn @ [butlast f]))
         else if \<not> endsWithSlash \<and> includeFiles then
           (if \<not> inSandbox e (path_join [directory, f]) then Returned (accessViolation f)
            else globLoop e l directory includeFiles includeDirectories later (filesToReturn @ [f]))
         else globLoop e l directory includeFiles includeDirectories later filesToReturn)"

definition globFiles :: "env \<Rightarrow> 'js lib \<Rightarrow> string \<Rightarrow> string \<Rightarrow> bool \<Rightarrow> bool \<Rightarrow> call" where
  "globFiles e l directory globPattern includeFiles includeDirectories =
     (if inSandbox e directory then
        (case glob l globPattern directory of
           Inl message \<Rightarrow> Returned (SassError message)
         | Inr files \<Rightarrow> globLoop e l directory includeFiles includeDirectories files [])
      else Returned (accessViolation directory))"

definition eyeglass_fs_join :: "'js lib \<Rightarrow> SassValue \<Rightarrow> call" where
  "eyeglass_fs_join l segments =
     (case path_join_apply l (castToJs l segments) of
        None \<Rightarrow> Raised
      | Some joined \<Rightarrow> Returned (Value (SassString joined)))"

definition eyeglass_fs_exists :: "env \<Rightarrow> SassValue \<Rightarrow> call" where
  "eyeglass_fs_exists e fsAbsolutePath =
     (case fsAbsolutePath of
        SassString absolutePath \<Rightarrow>
          if inSandbox e absolutePath then
            (if existsSync e absolutePath then Returned (Value (SassBoolean True))
             else Returned (Value (SassBoolean False)))
          else Returned (accessViolation absolutePath)
      | _ \<Rightarrow> Returned (typeError ''string'' (Inr fsAbsolutePath)))"

definition eyeglass_fs_list_files :: "env \<Rightarrow> 'js lib \<Rightarrow> SassValue \<Rightarrow> SassValue \<Rightarrow> call" where
  "eyeglass_fs_list_files e l directory globPattern =
     (case directory of
        SassString d \<Rightarrow>
          (case globPattern of
             SassString g \<Rightarrow> globFiles e l d g True False
           | _ \<Rightarrow> Returned (typeError ''string'' (Inr globPattern)))
      | _ \<Rightarrow> Returned (typeError ''string'' (Inr directory)))"

definition eyeglass_fs_list_directories ::
  "env \<Rightarrow> 'js lib \<Rightarrow> SassValue \<Rightarrow> SassValue \<Rightarrow> call" where
  "eyeglass_fs_list_directories e l directory globPattern =
     (case directory of
        SassString d \<Rightarrow>
          (case globPattern of
             SassString g \<Rightarrow> globFiles e l d g False True
           | _ \<Rightarrow> Returned (typeError ''string'' (Inr globPattern)))
      | _ \<Rightarrow> Returned (typeError ''string'' (Inr directory)))"

section \<open>URIs (URI.ts)\<close>

record URI =
  sep :: string
  path :: string
  search :: string
  hash :: string

datatype exception = TypeError

definition rUriFragments :: "string \<Rightarrow> (string \<times> string option \<times> string option) option" where
  \<comment> \<open>\<open>rUriFragments.exec(uri)\<close>: \<open>None\<close> is \<open>null\<close>, otherwise groups 1, 2 and 3, an
      unmatched group being \<open>undefined\<close>\<close>
  "rUriFragments uri =
     (let pathPart = takeWhile (\<lambda>c. c \<noteq> CHR ''?'' \<and> c \<noteq> CHR ''#'') uri;
          r = dropWhile (\<lambda>c. c \<noteq> CHR ''?'' \<and> c \<noteq> CHR ''#'') uri;
          query = (case r of
                     [] \<Rightarrow> None
                   | c # cs \<Rightarrow> if c = CHR ''?'' then Some (c # takeWhile (\<lambda>x. x \<noteq> CHR ''#'') cs)
                              else None);
          r' = (case r of
                  [] \<Rightarrow> []
                | c # cs \<Rightarrow> if c = CHR ''?'' then dropWhile (\<lambda>x. x \<noteq> CHR ''#'') cs else r);
          fragment = (case r' of [] \<Rightarrow> None | c # cs \<Rightarrow> Some (c # dotStar cs))
      in if pathPart = [] then None else Some (pathPart, query, fragment))"

fun replaceRuns :: "bool \<Rightarrow> string \<Rightarrow> string \<Rightarrow> string" where
  \<comment> \<open>the flag says that the character before belongs to a run already replaced\<close>
  "replaceRuns inRun s [] = []"
| "replaceRuns inRun s (c # cs) =
     (if c = CHR ''/'' \<or> c = CHR 0x5C
      then (if inRun then [] else s) @ replaceRuns True s cs
      else c # replaceRuns False s cs)"

definition replacePathSep :: "string \<Rightarrow> string \<Rightarrow> string" where
  \<comment> \<open>\<open>uri.replace(rAllPathSep, sep)\<close>: every run of slashes and backslashes becomes \<open>sep\<close>\<close>
  "replacePathSep s uri = replaceRuns False s uri"

definition shouldNormalizePathSep :: "bool \<Rightarrow> bool" where
  \<comment> \<open>the argument is \<open>process.env.EYEGLASS_NORMALIZE_PATHS !== "false"\<close>\<close>
  "shouldNormalizePathSep notDisabled = (path_sep = [CHR 0x5C] \<or> notDisabled)"

definition convertSeparator :: "bool \<Rightarrow> string \<Rightarrow> string \<Rightarrow> string" where
  "convertSeparator notDisabled uri s =
     (if shouldNormalizePathSep notDisabled then replacePathSep s uri else uri)"

definition setPath :: "bool \<Rightarrow> string \<Rightarrow> string \<Rightarrow> string" where
  \<comment> \<open>the new \<open>this.path\<close>, for \<open>this.sep\<close> and the pathname given\<close>
  "setPath notDisabled thisSep pathname =
     convertSeparator notDisabled (path_normalize (convertSeparator notDisabled pathname path_sep))
       thisSep"

definition setQuery :: "string option \<Rightarrow> string" where
  \<comment> \<open>the new \<open>this.search\<close>: reset, then \<open>addQuery\<close>\<close>
  "setQuery query =
     (if truthy query
      then ''?'' @ dropWhile (\<lambda>c. c = CHR ''?'' \<or> c = CHR ''&'') (str query)
      else [])"

definition setHash :: "string option \<Rightarrow> string" where
  "setHash fragment = (case fragment of None \<Rightarrow> [] | Some h \<Rightarrow> h)"

definition newURI :: "bool \<Rightarrow> string \<Rightarrow> string option \<Rightarrow> exception + URI" where
  \<comment> \<open>\<open>new URI(uri, sep)\<close>; reading a group of a \<open>null\<close> match throws\<close>
  "newURI notDisabled uri separator =
     (case rUriFragments uri of
        None \<Rightarrow> Inl TypeError
      | Some (pathPart, query, fragment) \<Rightarrow>
          Inr \<lparr>sep = (if truthy separator then str separator else ''/''),
               path = setPath notDisabled (if truthy separator then str separator else ''/'') pathPart,
               search = setQuery query,
               hash = setHash fragment\<rparr>)"

definition URI_join :: "bool \<Rightarrow> string list \<Rightarrow> exception + string" where
  \<comment> \<open>\<open>URI.join(...fragments)\<close>\<close>
  "URI_join notDisabled fragments =
     (case newURI notDisabled (join ''/'' (filter (\<lambda>fragment. fragment \<noteq> []) fragments)) None of
        Inl x \<Rightarrow> Inl x
      | Inr u \<Rightarrow> Inr (convertSeparator notDisabled (path u) (sep u)))"

section \<open>Reading a run\<close>

fun probed :: "event list \<Rightarrow> string list" where
  \<comment> \<open>the paths handed to \<open>readFileSync\<close>, in order\<close>
  "probed [] = []"
| "probed (ReadFile p # evs) = p # probed evs"
| "probed (_ # evs) = probed evs"

fun mentions :: "string \<Rightarrow> string \<Rightarrow> bool" where
  \<comment> \<open>the second text occurs in the first\<close>
  "mentions [] p = (p = [])"
| "mentions (c # cs) p = (take (length p) (c # cs) = p \<or> mentions cs p)"

definition relativeFiles :: "env \<Rightarrow> string \<Rightarrow> string \<Rightarrow> string list option \<Rightarrow> string list" where
  \<comment> \<open>the candidates of \<open>handleRelativeImports(includePaths)\<close>\<close>
  "relativeFiles e uri prev includes =
     NameExpander e uri
       (locations e (if existsSync e prev then path_dirname prev else root e) includes None)"

definition moduleFiles :: "env \<Rightarrow> string \<Rightarrow> string \<Rightarrow> string \<Rightarrow> string list" where
  \<comment> \<open>the candidates of the module-relative attempt, line 323\<close>
  "moduleFiles e moduleName relativePath dir =
     NameExpander e relativePath (locations e dir None (Some moduleName))"

definition declaredDir :: "module option \<Rightarrow> string option" where
  \<comment> \<open>the variable \<open>sassDir\<close> of the importer after line 280\<close>
  "declaredDir found = (case found of None \<Rightarrow> None | Some m \<Rightarrow> sassDir m)"

section \<open>An example project\<close>

definition plainExpander :: "string \<Rightarrow> string list \<Rightarrow> string list" where
  \<comment> \<open>a stand-in for the name expander: one candidate for each location\<close>
  "plainExpander uri locs = map (\<lambda>location. location @ ''/'' @ uri @ ''.scss'') locs"

definition widgets :: module where
  "widgets = \<lparr>name = ''widgets'', sassDir = Some ''/proj/node_modules/widgets/sass'',
              mainPath = None\<rparr>"

definition plain :: module where
  \<comment> \<open>a module that declares no stylesheet directory\<close>
  "plain = \<lparr>name = ''plain'', sassDir = None,
            mainPath = Some ''/proj/node_modules/plain/index.js''\<rparr>"

definition project :: env where
  \<comment> \<open>nothing can be read, and no fallback importer answers\<close>
  "project =
     \<lparr>cwd = ''/proj'',
      existsSync = (\<lambda>p. p = ''/proj/src/app.scss''),
      readFileSync = (\<lambda>p. None),
      NameExpander = plainExpander,
      modules_access =
        (\<lambda>n origin. if n = ''widgets'' then Some widgets
                     else if n = ''plain'' then Some plain else None),
      fallbackImporter = (\<lambda>uri prev. SassNULL),
      includePaths = Some [''/proj/vendor''],
      root = ''/proj'',
      fsSandbox = Some [''/srv/www'']\<rparr>"

definition elsewhere :: ImportedFile where
  \<comment> \<open>what the host's own importer answers in the examples where it answers\<close>
  "elsewhere = \<lparr>contents = ''a { b: c }'', file = ''/elsewhere/found.scss''\<rparr>"

definition hosted :: env where
  \<comment> \<open>the project with one stylesheet on disk and a host importer that answers\<close>
  "hosted =
     project
       \<lparr>readFileSync :=
          (\<lambda>p. if p = ''/proj/src/widgets/button.scss'' then Some ''button { }'' else None),
        fallbackImporter := (\<lambda>uri prev. ReturnFile elsewhere)\<rparr>"

definition nested :: env where
  \<comment> \<open>the project with a sandbox of two roots, one inside the other\<close>
  "nested = project\<lparr>fsSandbox := Some [''/srv/www'', ''/srv'']\<rparr>"

section \<open>Properties of module-name parsing\<close>

lemma noSlash_append: "noSlash s @ afterNoSlash s = s"
  by (simp add: noSlash_def afterNoSlash_def)

lemma noSlash_free: "slash \<notin> set (noSlash s)"
  by (auto simp: noSlash_def dest: set_takeWhileD)

lemma afterNoSlash_shape: "afterNoSlash s = [] \<or> (\<exists>r. afterNoSlash s = slash # r)"
proof (cases "afterNoSlash s")
  case Nil then show ?thesis by simp
next
  case (Cons c r)
  then have "hd (dropWhile (\<lambda>c. c \<noteq> slash) s) = slash"
    using hd_dropWhile[of "\<lambda>c. c \<noteq> slash" s] by (auto simp: afterNoSlash_def)
  with Cons show ?thesis by (simp add: afterNoSlash_def)
qed

lemma dotStar_prefix: "\<exists>tail. s = dotStar s @ tail \<and> (tail = [] \<or> lineTerminator (hd tail))"
proof -
  let ?t = "dropWhile (\<lambda>c. \<not> lineTerminator c) s"
  have "s = dotStar s @ ?t" by (simp add: dotStar_def)
  moreover have "?t = [] \<or> lineTerminator (hd ?t)"
    using hd_dropWhile[of "\<lambda>c. \<not> lineTerminator c" s] by auto
  ultimately show ?thesis by blast
qed

lemma split_no_sep: "d \<notin> set s \<Longrightarrow> split d s = [s]"
  by (induction s) auto

lemma split_at_sep: "d \<notin> set a \<Longrightarrow> split d (a @ d # r) = a # split d r"
  by (induction a) auto

lemma split_nonempty: "split d s \<noteq> []"
  by (induction s) (auto split: list.splits)

lemma scopedSegment_Some:
  assumes "scopedSegment uri = Some (m, rest)"
  shows "isScopedName m \<and> uri = m @ rest \<and> (rest = [] \<or> (\<exists>r. rest = slash # r))"
proof -
  from assms obtain c cs where uri: "uri = c # cs" by (cases uri) (auto simp: scopedSegment_def)
  from assms uri have c: "c = CHR ''@''" and s: "noSlash cs \<noteq> []"
    by (auto simp: scopedSegment_def split: if_splits)
  from assms uri c s obtain x r where a: "afterNoSlash cs = x # r" and n: "noSlash r \<noteq> []"
    and m: "m = c # noSlash cs @ [slash] @ noSlash r" and rest: "rest = afterNoSlash r"
    by (auto simp: scopedSegment_def split: if_splits list.splits)
  from a afterNoSlash_shape[of cs] have x: "x = slash" by auto
  have "split slash m = [c # noSlash cs, noSlash r]"
    using split_at_sep[of slash "c # noSlash cs" "noSlash r"] noSlash_free[of cs] c
      split_no_sep[OF noSlash_free[of r]] m
    by (simp add: slash_def)
  then have "isScopedName m" using c s n by (simp add: isScopedName_def)
  moreover have "uri = m @ rest"
    using uri m rest a x noSlash_append[of cs] noSlash_append[of r] by (metis append.assoc append_Cons append_Nil)
  ultimately show ?thesis using rest afterNoSlash_shape[of r] by blast
qed

lemma bareSegment_Some:
  assumes "bareSegment uri = Some (m, rest)"
  shows "isBareName m \<and> uri = m @ rest \<and> (rest = [] \<or> (\<exists>r. rest = slash # r))"
  using assms noSlash_free[of uri] noSlash_append[of uri] afterNoSlash_shape[of uri]
  by (auto simp: bareSegment_def isBareName_def split: if_splits)

lemma MODULE_PARSER_None: "(MODULE_PARSER uri = None) = (uri = [] \<or> hd uri = slash)"
proof -
  have b: "(bareSegment uri = None) = (uri = [] \<or> hd uri = slash)"
    by (cases uri) (auto simp: bareSegment_def noSlash_def)
  have s: "scopedSegment uri \<noteq> None \<Longrightarrow> \<not> (uri = [] \<or> hd uri = slash)"
    by (cases uri) (auto simp: scopedSegment_def slash_def split: if_splits)
  show ?thesis using b s
    by (auto simp: MODULE_PARSER_def split: option.splits)
qed

lemma MODULE_PARSER_Some:
  assumes "MODULE_PARSER uri = Some (m, rel)"
  shows "(isScopedName m \<or> isBareName m)
     \<and> ((uri = m \<and> rel = [])
        \<or> (\<exists>tail. uri = m @ [slash] @ rel @ tail \<and> (tail = [] \<or> lineTerminator (hd tail))))"
proof -
  from assms obtain rest where
    seg: "scopedSegment uri = Some (m, rest) \<or> bareSegment uri = Some (m, rest)"
    and rel: "rel = dotStar (optionalSlash rest)"
    by (auto simp: MODULE_PARSER_def split: option.splits)
  from seg have shape: "isScopedName m \<or> isBareName m" and uri: "uri = m @ rest"
    and rest: "rest = [] \<or> (\<exists>r. rest = slash # r)"
    using scopedSegment_Some bareSegment_Some by blast+
  from rest show ?thesis
  proof
    assume "rest = []"
    then show ?thesis using shape uri rel by (simp add: optionalSlash_def dotStar_def)
  next
    assume "\<exists>r. rest = slash # r"
    then obtain r where r: "rest = slash # r" ..
    then have "rel = dotStar r" using rel by (simp add: optionalSlash_def)
    with dotStar_prefix[of r] obtain tail where
      "r = rel @ tail" "tail = [] \<or> lineTerminator (hd tail)" by auto
    then show ?thesis using shape uri r by auto
  qed
qed

lemma MODULE_PARSER_scoped_example: "MODULE_PARSER ''@scope/pkg/lib/_foo'' = Some (''@scope/pkg'', ''lib/_foo'')"
  by (simp add: MODULE_PARSER_def scopedSegment_def bareSegment_def noSlash_def afterNoSlash_def
      slash_def optionalSlash_def dotStar_def lineTerminator_def)

lemma MODULE_PARSER_bare_example: "MODULE_PARSER ''pkg/lib/foo'' = Some (''pkg'', ''lib/foo'')"
  by (simp add: MODULE_PARSER_def scopedSegment_def bareSegment_def noSlash_def afterNoSlash_def
      slash_def optionalSlash_def dotStar_def lineTerminator_def)


lemma split_first: "\<exists>rest. split d s = takeWhile (\<lambda>c. c \<noteq> d) s # rest"
proof (induction s)
  case Nil
  show ?case by simp
next
  case (Cons c s)
  then obtain rest where "split d s = takeWhile (\<lambda>c. c \<noteq> d) s # rest" ..
  then show ?case by simp
qed

lemma join_split: "join [d] (split d s) = s"
proof (induction s)
  case Nil
  show ?case by simp
next
  case (Cons c s)
  obtain p ps where ps: "split d s = p # ps"
    using split_nonempty[of d s] by (cases "split d s") auto
  show ?case
  proof (cases "c = d")
    case True
    with Cons ps show ?thesis by simp
  next
    case False
    with Cons ps show ?thesis by (cases ps) auto
  qed
qed

lemma split_free: "\<forall>x\<in>set (split d s). d \<notin> set x"
proof (induction s)
  case Nil
  show ?case by simp
next
  case (Cons c s)
  obtain p ps where "split d s = p # ps"
    using split_nonempty[of d s] by (cases "split d s") auto
  with Cons show ?case by auto
qed

lemma noSlash_before_slash: "slash \<notin> set a \<Longrightarrow> noSlash (a @ slash # r) = a"
  by (induction a) (auto simp: noSlash_def)

lemma afterNoSlash_before_slash: "slash \<notin> set a \<Longrightarrow> afterNoSlash (a @ slash # r) = slash # r"
  by (induction a) (auto simp: afterNoSlash_def)

lemma noSlash_whole: "slash \<notin> set a \<Longrightarrow> noSlash a = a"
  by (induction a) (auto simp: noSlash_def)

lemma afterNoSlash_whole: "slash \<notin> set a \<Longrightarrow> afterNoSlash a = []"
  by (induction a) (auto simp: afterNoSlash_def)

lemma scoped_parts:
  assumes "isScopedName m"
  shows "\<exists>s n. m = CHR ''@'' # s @ slash # n \<and> s \<noteq> [] \<and> n \<noteq> []
           \<and> slash \<notin> set s \<and> slash \<notin> set n"
proof -
  from assms obtain a b where ab: "split slash m = [a, b]"
    and a: "case a of [] \<Rightarrow> False | c # s \<Rightarrow> c = CHR ''@'' \<and> s \<noteq> []" and b: "b \<noteq> []"
    by (auto simp: isScopedName_def split: list.splits)
  from a obtain s where s: "a = CHR ''@'' # s" "s \<noteq> []" by (cases a) auto
  have "join [slash] (split slash m) = m" by (rule join_split)
  with ab have m: "m = a @ slash # b" by simp
  from split_free[of slash m] ab have "slash \<notin> set a" "slash \<notin> set b" by auto
  with m s b show ?thesis by auto
qed

lemma MODULE_PARSER_scoped:
  assumes "isScopedName m"
  shows "MODULE_PARSER m = Some (m, [])"
    and "MODULE_PARSER (m @ slash # rel) = Some (m, dotStar rel)"
proof -
  from scoped_parts[OF assms] obtain s n where m: "m = CHR ''@'' # s @ slash # n"
    and s: "s \<noteq> []" and n: "n \<noteq> []" and fs: "slash \<notin> set s" and fn: "slash \<notin> set n"
    by blast
  have "scopedSegment m = Some (m, [])"
    unfolding m using s n fs fn
    by (simp add: scopedSegment_def noSlash_before_slash afterNoSlash_before_slash
        noSlash_whole afterNoSlash_whole)
  then show "MODULE_PARSER m = Some (m, [])"
    by (simp add: MODULE_PARSER_def optionalSlash_def dotStar_def)
  have "scopedSegment (m @ slash # rel) = Some (m, slash # rel)"
    unfolding m using s n fs fn
    by (simp add: scopedSegment_def noSlash_before_slash afterNoSlash_before_slash)
  then show "MODULE_PARSER (m @ slash # rel) = Some (m, dotStar rel)"
    by (simp add: MODULE_PARSER_def optionalSlash_def)
qed

lemma scopedSegment_needs:
  "scopedSegment uri = Some r \<Longrightarrow>
   take 1 uri = ''@'' \<and> noSlash (tl uri) \<noteq> []
   \<and> noSlash (tl (afterNoSlash (tl uri))) \<noteq> []"
  by (cases uri) (auto simp: scopedSegment_def split: if_splits list.splits)

lemma MODULE_PARSER_bare:
  assumes bare: "isBareName m"
  shows "MODULE_PARSER m = Some (m, [])"
    and "take 1 m \<noteq> ''@'' \<or> m = ''@'' \<or> noSlash rel = [] \<Longrightarrow>
         MODULE_PARSER (m @ slash # rel) = Some (m, dotStar rel)"
proof -
  from bare have ne: "m \<noteq> []" and free: "slash \<notin> set m" by (auto simp: isBareName_def)
  have "scopedSegment m = None"
  proof (cases "scopedSegment m")
    case (Some r)
    from scopedSegment_needs[OF this] have "take 1 m = ''@''" "noSlash (tl m) \<noteq> []"
      "noSlash (tl (afterNoSlash (tl m))) \<noteq> []" by auto
    moreover from free ne have "slash \<notin> set (tl m)" by (cases m) auto
    then have "afterNoSlash (tl m) = []" by (rule afterNoSlash_whole)
    ultimately show ?thesis by (simp add: noSlash_def)
  qed simp
  moreover have "bareSegment m = Some (m, [])"
    using ne free by (simp add: bareSegment_def noSlash_whole afterNoSlash_whole)
  ultimately show "MODULE_PARSER m = Some (m, [])"
    by (simp add: MODULE_PARSER_def optionalSlash_def dotStar_def)
  assume side: "take 1 m \<noteq> ''@'' \<or> m = ''@'' \<or> noSlash rel = []"
  have "scopedSegment (m @ slash # rel) = None"
  proof (cases "scopedSegment (m @ slash # rel)")
    case (Some r)
    from scopedSegment_needs[OF this] have at: "take 1 (m @ slash # rel) = ''@''"
      and sc: "noSlash (tl (m @ slash # rel)) \<noteq> []"
      and nm: "noSlash (tl (afterNoSlash (tl (m @ slash # rel)))) \<noteq> []" by auto
    from ne obtain c cs where m: "m = c # cs" by (cases m) auto
    with free have fcs: "slash \<notin> set cs" by simp
    from at m have c: "c = CHR ''@''" by simp
    from sc m fcs have cs: "cs \<noteq> []" by (simp add: noSlash_before_slash)
    from nm m fcs have "noSlash rel \<noteq> []" by (simp add: afterNoSlash_before_slash)
    with side m c cs show ?thesis by simp
  qed simp
  moreover have "bareSegment (m @ slash # rel) = Some (m, slash # rel)"
    using ne free by (simp add: bareSegment_def noSlash_before_slash afterNoSlash_before_slash)
  ultimately show "MODULE_PARSER (m @ slash # rel) = Some (m, dotStar rel)"
    by (simp add: MODULE_PARSER_def optionalSlash_def)
qed


lemma scoped_name_shape:
  "isScopedName m =
     (\<exists>s n. m = CHR ''@'' # s @ slash # n \<and> s \<noteq> [] \<and> n \<noteq> []
        \<and> slash \<notin> set s \<and> slash \<notin> set n)"
proof
  assume "isScopedName m"
  then show "\<exists>s n. m = CHR ''@'' # s @ slash # n \<and> s \<noteq> [] \<and> n \<noteq> []
        \<and> slash \<notin> set s \<and> slash \<notin> set n"
    by (rule scoped_parts)
next
  assume "\<exists>s n. m = CHR ''@'' # s @ slash # n \<and> s \<noteq> [] \<and> n \<noteq> []
        \<and> slash \<notin> set s \<and> slash \<notin> set n"
  then obtain s n where m: "m = CHR ''@'' # s @ slash # n" and s: "s \<noteq> []" and n: "n \<noteq> []"
    and fs: "slash \<notin> set s" and fn: "slash \<notin> set n" by blast
  have "split slash m = [CHR ''@'' # s, n]"
    using split_at_sep[of slash "CHR ''@'' # s" n] fs split_no_sep[OF fn] m
    by (simp add: slash_def)
  with s n show "isScopedName m" by (simp add: isScopedName_def)
qed

lemma dotStar_plain: "\<forall>c\<in>set rel. \<not> lineTerminator c \<Longrightarrow> dotStar rel = rel"
  by (simp add: dotStar_def takeWhile_eq_all_conv)

text \<open>
  Claim C4. Module-name parsing splits an identifier into a leading scoped segment
  \<open>@scope/name\<close> or a single bare segment, followed optionally by a slash and the
  remaining relative path. \<open>@scope/pkg/lib/_foo\<close> parses as module \<open>@scope/pkg\<close> with
  relative path \<open>lib/_foo\<close>, and \<open>pkg/lib/foo\<close> as module \<open>pkg\<close> with relative path
  \<open>lib/foo\<close>. In general, whenever the parser matches, the module name has one of the
  two shapes and the identifier is the module name alone, or the module name, a slash,
  the relative path and whatever follows the first line terminator; the parser fails to
  match exactly on the empty identifier and on one that starts with a slash. Conversely,
  every scoped name (an \<open>@\<close>, a non-empty scope, a slash and a non-empty name, neither
  with a slash inside), alone or followed by a slash and more, parses as that scoped name
  and what follows the slash up to the first line terminator; and every single segment
  parses as a bare name in the same way, unless it is a scope that a name follows, which
  is the scoped case.
\<close>

theorem module_name_parsing:
  "MODULE_PARSER ''@scope/pkg/lib/_foo'' = Some (''@scope/pkg'', ''lib/_foo'')
   \<and> MODULE_PARSER ''pkg/lib/foo'' = Some (''pkg'', ''lib/foo'')
   \<and> (\<forall>uri moduleName relativePath.
         MODULE_PARSER uri = Some (moduleName, relativePath) \<longrightarrow>
           (isScopedName moduleName \<or> isBareName moduleName)
           \<and> ((uri = moduleName \<and> relativePath = [])
              \<or> (\<exists>tail. uri = moduleName @ [slash] @ relativePath @ tail
                        \<and> (tail = [] \<or> lineTerminator (hd tail)))))
   \<and> (\<forall>uri. (MODULE_PARSER uri = None) = (uri = [] \<or> hd uri = slash))
   \<and> (\<forall>m. isScopedName m =
          (\<exists>s n. m = CHR ''@'' # s @ slash # n \<and> s \<noteq> [] \<and> n \<noteq> []
             \<and> slash \<notin> set s \<and> slash \<notin> set n))
   \<and> (\<forall>m rel. isScopedName m \<longrightarrow>
          MODULE_PARSER m = Some (m, [])
          \<and> MODULE_PARSER (m @ slash # rel) = Some (m, dotStar rel))
   \<and> (\<forall>m rel. m \<noteq> [] \<and> slash \<notin> set m \<longrightarrow>
          MODULE_PARSER m = Some (m, [])
          \<and> (take 1 m \<noteq> ''@'' \<or> m = ''@'' \<or> noSlash rel = [] \<longrightarrow>
               MODULE_PARSER (m @ slash # rel) = Some (m, dotStar rel)))
   \<and> (\<forall>rel. (\<forall>c\<in>set rel. c \<noteq> CHR 0x0A \<and> c \<noteq> CHR 0x0D) \<longrightarrow> dotStar rel = rel)"
proof -
  have bare: "MODULE_PARSER m = Some (m, [])
          \<and> (take 1 m \<noteq> ''@'' \<or> m = ''@'' \<or> noSlash rel = [] \<longrightarrow>
               MODULE_PARSER (m @ slash # rel) = Some (m, dotStar rel))"
    if "m \<noteq> [] \<and> slash \<notin> set m" for m rel
  proof -
    from that have "isBareName m" by (simp add: isBareName_def)
    then show ?thesis using MODULE_PARSER_bare by blast
  qed
  have plain: "dotStar rel = rel" if "\<forall>c\<in>set rel. c \<noteq> CHR 0x0A \<and> c \<noteq> CHR 0x0D" for rel
    using that by (simp add: dotStar_plain lineTerminator_def)
  show ?thesis
  proof (intro conjI allI impI)
    show "MODULE_PARSER ''@scope/pkg/lib/_foo'' = Some (''@scope/pkg'', ''lib/_foo'')"
      by (rule MODULE_PARSER_scoped_example)
    show "MODULE_PARSER ''pkg/lib/foo'' = Some (''pkg'', ''lib/foo'')"
      by (rule MODULE_PARSER_bare_example)
  next
    fix uri moduleName relativePath
    assume "MODULE_PARSER uri = Some (moduleName, relativePath)"
    from MODULE_PARSER_Some[OF this]
    show "isScopedName moduleName \<or> isBareName moduleName"
      and "(uri = moduleName \<and> relativePath = [])
              \<or> (\<exists>tail. uri = moduleName @ [slash] @ relativePath @ tail
                        \<and> (tail = [] \<or> lineTerminator (hd tail)))"
      by blast+
  next
    fix uri
    show "(MODULE_PARSER uri = None) = (uri = [] \<or> hd uri = slash)"
      by (rule MODULE_PARSER_None)
  next
    fix m
    show "isScopedName m =
          (\<exists>s n. m = CHR ''@'' # s @ slash # n \<and> s \<noteq> [] \<and> n \<noteq> []
             \<and> slash \<notin> set s \<and> slash \<notin> set n)"
      by (rule scoped_name_shape)
  next
    fix m rel
    assume "isScopedName m"
    then show "MODULE_PARSER m = Some (m, [])"
      and "MODULE_PARSER (m @ slash # rel) = Some (m, dotStar rel)"
      by (rule MODULE_PARSER_scoped)+
  next
    fix m :: string and rel :: string
    assume "m \<noteq> [] \<and> slash \<notin> set m"
    then show "MODULE_PARSER m = Some (m, [])" using bare by blast
  next
    fix m :: string and rel :: string
    assume "m \<noteq> [] \<and> slash \<notin> set m"
      and "take 1 m \<noteq> ''@'' \<or> m = ''@'' \<or> noSlash rel = []"
    then show "MODULE_PARSER (m @ slash # rel) = Some (m, dotStar rel)" using bare by blast
  next
    fix rel
    assume "\<forall>c\<in>set rel. c \<noteq> CHR 0x0A \<and> c \<noteq> CHR 0x0D"
    then show "dotStar rel = rel" by (rule plain)
  qed
qed

theorem module_name_parsing_witness:
  "MODULE_PARSER ''@scope/pkg/lib/_foo'' = Some (''@scope/pkg'', ''lib/_foo'')
   \<and> (isScopedName ''@scope/pkg'' \<or> isBareName ''@scope/pkg'')
   \<and> ((''@scope/pkg/lib/_foo'' = ''@scope/pkg'' \<and> ''lib/_foo'' = [])
      \<or> (\<exists>tail. ''@scope/pkg/lib/_foo'' = ''@scope/pkg'' @ [slash] @ ''lib/_foo'' @ tail
                \<and> (tail = [] \<or> lineTerminator (hd tail))))
   \<and> isScopedName ''@org/pkg''
   \<and> MODULE_PARSER ''@org/pkg'' = Some (''@org/pkg'', [])
   \<and> MODULE_PARSER ''@org/pkg/x/y'' = Some (''@org/pkg'', ''x/y'')
   \<and> MODULE_PARSER ''widgets'' = Some (''widgets'', [])
   \<and> MODULE_PARSER ''widgets/a/b'' = Some (''widgets'', ''a/b'')
   \<and> MODULE_PARSER ''@org//x'' = Some (''@org'', ''/x'')"
proof -
  note parsing = module_name_parsing
  have parsed: "MODULE_PARSER ''@scope/pkg/lib/_foo'' = Some (''@scope/pkg'', ''lib/_foo'')"
    by (simp add: MODULE_PARSER_def scopedSegment_def bareSegment_def noSlash_def
        afterNoSlash_def slash_def optionalSlash_def dotStar_def lineTerminator_def)
  from parsing have shape:
    "\<forall>uri moduleName relativePath.
         MODULE_PARSER uri = Some (moduleName, relativePath) \<longrightarrow>
           (isScopedName moduleName \<or> isBareName moduleName)
           \<and> ((uri = moduleName \<and> relativePath = [])
              \<or> (\<exists>tail. uri = moduleName @ [slash] @ relativePath @ tail
                        \<and> (tail = [] \<or> lineTerminator (hd tail))))"
    by (elim conjE)
  from parsing have scopedShape: "\<forall>m. isScopedName m =
          (\<exists>s n. m = CHR ''@'' # s @ slash # n \<and> s \<noteq> [] \<and> n \<noteq> []
             \<and> slash \<notin> set s \<and> slash \<notin> set n)"
    by (elim conjE)
  from parsing have scoped: "\<forall>m rel. isScopedName m \<longrightarrow>
          MODULE_PARSER m = Some (m, [])
          \<and> MODULE_PARSER (m @ slash # rel) = Some (m, dotStar rel)"
    by (elim conjE)
  from parsing have bare: "\<forall>m rel. m \<noteq> [] \<and> slash \<notin> set m \<longrightarrow>
          MODULE_PARSER m = Some (m, [])
          \<and> (take 1 m \<noteq> ''@'' \<or> m = ''@'' \<or> noSlash rel = [] \<longrightarrow>
               MODULE_PARSER (m @ slash # rel) = Some (m, dotStar rel))"
    by (elim conjE)
  from parsing have plain:
    "\<forall>rel. (\<forall>c\<in>set rel. c \<noteq> CHR 0x0A \<and> c \<noteq> CHR 0x0D) \<longrightarrow> dotStar rel = rel"
    by (elim conjE)
  have "''@org/pkg'' = CHR ''@'' # ''org'' @ slash # ''pkg'' \<and> ''org'' \<noteq> [] \<and> ''pkg'' \<noteq> []
      \<and> slash \<notin> set ''org'' \<and> slash \<notin> set ''pkg''"
    by (simp add: slash_def)
  with scopedShape have org: "isScopedName ''@org/pkg''" by blast
  have d1: "dotStar ''x/y'' = ''x/y''" using plain by simp
  have d2: "dotStar ''a/b'' = ''a/b''" using plain by simp
  have d3: "dotStar ''/x'' = ''/x''" using plain by simp
  from scoped org have o1: "MODULE_PARSER ''@org/pkg'' = Some (''@org/pkg'', [])" by blast
  from scoped org have "MODULE_PARSER (''@org/pkg'' @ slash # ''x/y'') = Some (''@org/pkg'', dotStar ''x/y'')"
    by blast
  then have o2: "MODULE_PARSER ''@org/pkg/x/y'' = Some (''@org/pkg'', ''x/y'')"
    by (simp add: d1 slash_def)
  have w: "''widgets'' \<noteq> [] \<and> slash \<notin> set ''widgets''" by (simp add: slash_def)
  with bare have w1: "MODULE_PARSER ''widgets'' = Some (''widgets'', [])" by blast
  have "take 1 ''widgets'' \<noteq> ''@'' \<or> ''widgets'' = ''@'' \<or> noSlash ''a/b'' = []" by simp
  with bare w have "MODULE_PARSER (''widgets'' @ slash # ''a/b'') = Some (''widgets'', dotStar ''a/b'')"
    by blast
  then have w2: "MODULE_PARSER ''widgets/a/b'' = Some (''widgets'', ''a/b'')"
    by (simp add: d2 slash_def)
  have g: "''@org'' \<noteq> [] \<and> slash \<notin> set ''@org''" by (simp add: slash_def)
  have "take 1 ''@org'' \<noteq> ''@'' \<or> ''@org'' = ''@'' \<or> noSlash ''/x'' = []"
    by (simp add: noSlash_def slash_def)
  with bare g have "MODULE_PARSER (''@org'' @ slash # ''/x'') = Some (''@org'', dotStar ''/x'')"
    by blast
  then have g2: "MODULE_PARSER ''@org//x'' = Some (''@org'', ''/x'')"
    by (simp add: d3 slash_def)
  from parsed shape have "(isScopedName ''@scope/pkg'' \<or> isBareName ''@scope/pkg'')
   \<and> ((''@scope/pkg/lib/_foo'' = ''@scope/pkg'' \<and> ''lib/_foo'' = [])
      \<or> (\<exists>tail. ''@scope/pkg/lib/_foo'' = ''@scope/pkg'' @ [slash] @ ''lib/_foo'' @ tail
                \<and> (tail = [] \<or> lineTerminator (hd tail))))"
    by blast
  with parsed org o1 o2 w1 w2 g2 show ?thesis by blast
qed


section \<open>Properties of the module importer\<close>

lemma after_Nil: "after [] r = r"
  by (simp add: after_def)

lemma after_after: "after xs (after ys r) = after (xs @ ys) r"
  by (simp add: after_def)

lemma emit_after: "emit ev r = after [ev] r"
  by (simp add: emit_def after_def)

lemma after_pair: "after xs (ys, out) = (xs @ ys, out)"
  by (simp add: after_def)

lemma readLoop_unreadable:
  "\<forall>f\<in>set files. readFileSync e f = None \<Longrightarrow>
   readLoop e uri allFiles files callback =
     after (map ReadFile files) (callback (Some (notFoundMessage uri allFiles)) None)"
proof (induction files)
  case Nil
  show ?case by (simp add: after_Nil)
next
  case (Cons f files)
  then show ?case by (simp add: emit_after after_after)
qed

lemma readAbstractFile_unreadable:
  assumes "\<forall>f\<in>set (NameExpander e uri (locations e location includes moduleName)).
             readFileSync e f = None"
  shows "readAbstractFile e originalUri uri location includes moduleName callback =
     after (map ReadFile (NameExpander e uri (locations e location includes moduleName)))
       (callback
          (Some (notFoundMessage originalUri
                   (NameExpander e uri (locations e location includes moduleName))))
          None)"
  using assms by (simp add: readAbstractFile_def readFirstFile_def readLoop_unreadable)

lemma createHandler_error:
  "createHandler e uri prev errorHandler (Some msg) None =
     fallback e uri prev
       ((case errorHandler of Some h \<Rightarrow> h | None \<Rightarrow> defaultErrorHandler) msg)"
  by (simp add: createHandler_def)

lemma fallback_unfold:
  "fallback e uri prev noFallback =
     (if fallbackImporter e uri prev = SassNULL
      then after [FallbackInvoked uri prev] noFallback
      else ([FallbackInvoked uri prev], Done (fallbackImporter e uri prev)))"
  by (simp add: fallback_def emit_after split: ImporterReturnType.splits)

lemma handleRelativeImports_unreadable:
  assumes "\<forall>f\<in>set (relativeFiles e uri prev includes). readFileSync e f = None"
  shows "handleRelativeImports e uri prev includes =
     after (map ReadFile (relativeFiles e uri prev includes))
       (fallback e uri prev
          ([], Done (ReturnError
                 (if existsSync e prev
                  then notFoundMessage uri (relativeFiles e uri prev includes)
                  else ''Could not import '' @ uri @ '' from '' @ prev))))"
  using assms
  by (simp add: handleRelativeImports_def relativeFiles_def readAbstractFile_unreadable
      createHandler_error defaultErrorHandler_def)

lemma importFrom_module_unreadable:
  assumes "truthy sd"
    and "\<forall>f\<in>set (moduleFiles e moduleName relativePath (str sd)). readFileSync e f = None"
  shows "importFrom e uri prev moduleName relativePath sd =
     after (map ReadFile (moduleFiles e moduleName relativePath (str sd)))
       (fallback e uri prev (handleRelativeImports e uri prev None))"
  using assms
  by (simp add: importFrom_def moduleFiles_def readAbstractFile_unreadable createHandler_error)

lemma ModuleImporter_unfold:
  assumes "MODULE_PARSER uri = Some (parsedName, parsedPath)"
    and "lookupModule e parsedName parsedPath (if existsSync e prev then prev else root e)
           = (calls, moduleName, relativePath, found)"
  shows "ModuleImporter e uri prev =
     after calls
       (case found of
          None \<Rightarrow> importFrom e uri prev moduleName relativePath None
        | Some m \<Rightarrow>
            if \<not> truthy (sassDir m) \<and> \<not> existsSync e prev then
              fallback e uri prev ([], Done (ReturnError (missingMessage m)))
            else importFrom e uri prev moduleName relativePath (sassDir m))"
  using assms by (simp add: ModuleImporter_def)


lemma mentions_middle: "mentions (a @ p @ b) p"
proof (induction a)
  case Nil
  show ?case
  proof (cases "p @ b")
    case Nil
    then show ?thesis by simp
  next
    case (Cons c cs)
    have "take (length p) (p @ b) = p" by simp
    with Cons show ?thesis by simp
  qed
next
  case (Cons c a)
  then show ?case by simp
qed

lemma join_contains: "x \<in> set xs \<Longrightarrow> \<exists>a b. join s xs = a @ x @ b"
proof (induction s xs rule: join.induct)
  case (1 s)
  then show ?case by simp
next
  case (2 s y)
  then have "join s [y] = [] @ x @ []" by simp
  then show ?case by blast
next
  case (3 s y z zs)
  show ?case
  proof (cases "x = y")
    case True
    then have "join s (y # z # zs) = [] @ x @ (s @ join s (z # zs))" by simp
    then show ?thesis by blast
  next
    case False
    with 3 obtain a b where "join s (z # zs) = a @ x @ b" by auto
    then have "join s (y # z # zs) = (y @ s @ a) @ x @ b" by simp
    then show ?thesis by blast
  qed
qed

lemma notFoundMessage_mentions:
  "f \<in> set files \<Longrightarrow> mentions (notFoundMessage uri files) f"
proof -
  assume "f \<in> set files"
  then have "f \<in> set ((''Could not import '' @ uri @ '' from any of the following locations:'') # files)"
    by simp
  from join_contains[OF this] show ?thesis
    unfolding notFoundMessage_def using mentions_middle by metis
qed

lemma probed_append: "probed (xs @ ys) = probed xs @ probed ys"
  by (induction xs rule: probed.induct) auto

lemma probed_reads: "probed (map ReadFile fs) = fs"
  by (induction fs) auto

text \<open>
  Claim C1, as the code has it. When the module-relative attempt is reached (a module
  record with a declared stylesheet directory) and none of its candidates can be read,
  the fallback resolver is invoked with the original identifier at once. If it reports
  something usable, that is the result of the import and no relative candidate is tried.
  Only if it reports nothing does the importer go on to the relative attempt (from the
  directory of the requesting file if that is a real file, else from the project root,
  without the include paths); and if none of those candidates can be read and the
  fallback resolver, invoked again with the original identifier, reports nothing, the
  final not-found error is produced.
\<close>

theorem module_miss_consults_fallback_first:
  assumes parsed: "MODULE_PARSER uri = Some (parsedName, parsedPath)"
    and looked: "lookupModule e parsedName parsedPath (if existsSync e prev then prev else root e)
                   = (calls, moduleName, relativePath, Some m)"
    and declared: "truthy (sassDir m)"
    and miss: "\<forall>f\<in>set (moduleFiles e moduleName relativePath (str (sassDir m))).
                 readFileSync e f = None"
  shows "ModuleImporter e uri prev =
           (if fallbackImporter e uri prev = SassNULL
            then after (calls @ map ReadFile (moduleFiles e moduleName relativePath (str (sassDir m)))
                          @ [FallbackInvoked uri prev])
                   (handleRelativeImports e uri prev None)
            else (calls @ map ReadFile (moduleFiles e moduleName relativePath (str (sassDir m)))
                    @ [FallbackInvoked uri prev],
                  Done (fallbackImporter e uri prev)))
         \<and> (fallbackImporter e uri prev = SassNULL
              \<and> (\<forall>f\<in>set (relativeFiles e uri prev None). readFileSync e f = None) \<longrightarrow>
            ModuleImporter e uri prev =
              (calls @ map ReadFile (moduleFiles e moduleName relativePath (str (sassDir m)))
                 @ [FallbackInvoked uri prev]
                 @ map ReadFile (relativeFiles e uri prev None)
                 @ [FallbackInvoked uri prev],
               Done (ReturnError
                 (if existsSync e prev then notFoundMessage uri (relativeFiles e uri prev None)
                  else ''Could not import '' @ uri @ '' from '' @ prev))))"
proof -
  have step: "ModuleImporter e uri prev =
      after (calls @ map ReadFile (moduleFiles e moduleName relativePath (str (sassDir m))))
        (fallback e uri prev (handleRelativeImports e uri prev None))"
    using ModuleImporter_unfold[OF parsed looked] declared miss
    by (simp add: importFrom_module_unreadable after_after)
  have first: "ModuleImporter e uri prev =
           (if fallbackImporter e uri prev = SassNULL
            then after (calls @ map ReadFile (moduleFiles e moduleName relativePath (str (sassDir m)))
                          @ [FallbackInvoked uri prev])
                   (handleRelativeImports e uri prev None)
            else (calls @ map ReadFile (moduleFiles e moduleName relativePath (str (sassDir m)))
                    @ [FallbackInvoked uri prev],
                  Done (fallbackImporter e uri prev)))"
    unfolding step by (simp add: fallback_unfold after_after after_pair)
  moreover have "ModuleImporter e uri prev =
              (calls @ map ReadFile (moduleFiles e moduleName relativePath (str (sassDir m)))
                 @ [FallbackInvoked uri prev]
                 @ map ReadFile (relativeFiles e uri prev None)
                 @ [FallbackInvoked uri prev],
               Done (ReturnError
                 (if existsSync e prev then notFoundMessage uri (relativeFiles e uri prev None)
                  else ''Could not import '' @ uri @ '' from '' @ prev)))"
    if silent: "fallbackImporter e uri prev = SassNULL"
      and none: "\<forall>f\<in>set (relativeFiles e uri prev None). readFileSync e f = None"
    unfolding first using silent
    by (simp add: handleRelativeImports_unreadable[OF none] fallback_unfold after_after after_pair)
  ultimately show ?thesis by blast
qed



theorem module_miss_consults_fallback_first_witness:
  "ModuleImporter project ''widgets/button'' ''/proj/src/app.scss'' =
     ([Access ''widgets'' ''/proj/src/app.scss'',
       ReadFile ''/proj/node_modules/widgets/sass/button.scss'',
       ReadFile ''/proj/node_modules/widgets/sass/widgets/button.scss'',
       FallbackInvoked ''widgets/button'' ''/proj/src/app.scss'',
       ReadFile ''/proj/src/widgets/button.scss'',
       FallbackInvoked ''widgets/button'' ''/proj/src/app.scss''],
      Done (ReturnError (notFoundMessage ''widgets/button'' [''/proj/src/widgets/button.scss''])))"
proof -
  have parsed: "MODULE_PARSER ''widgets/button'' = Some (''widgets'', ''button'')"
    by code_simp
  have looked: "lookupModule project ''widgets'' ''button''
                  (if existsSync project ''/proj/src/app.scss'' then ''/proj/src/app.scss''
                   else root project)
                = ([Access ''widgets'' ''/proj/src/app.scss''], ''widgets'', ''button'', Some widgets)"
    by code_simp
  have declared: "truthy (sassDir widgets)"
    by code_simp
  have files: "moduleFiles project ''widgets'' ''button'' (str (sassDir widgets)) =
      [''/proj/node_modules/widgets/sass/button.scss'',
       ''/proj/node_modules/widgets/sass/widgets/button.scss'']"
    by code_simp
  have miss: "\<forall>f\<in>set (moduleFiles project ''widgets'' ''button'' (str (sassDir widgets))).
                readFileSync project f = None"
    by code_simp
  have silent: "fallbackImporter project ''widgets/button'' ''/proj/src/app.scss'' = SassNULL"
    by code_simp
  have relative: "relativeFiles project ''widgets/button'' ''/proj/src/app.scss'' None =
      [''/proj/src/widgets/button.scss'']"
    by code_simp
  have none: "\<forall>f\<in>set (relativeFiles project ''widgets/button'' ''/proj/src/app.scss'' None).
                readFileSync project f = None"
    by code_simp
  have real: "existsSync project ''/proj/src/app.scss''"
    by code_simp
  from module_miss_consults_fallback_first[OF parsed looked declared miss, THEN conjunct2]
    silent none
  have "ModuleImporter project ''widgets/button'' ''/proj/src/app.scss'' =
      ([Access ''widgets'' ''/proj/src/app.scss'']
         @ map ReadFile (moduleFiles project ''widgets'' ''button'' (str (sassDir widgets)))
         @ [FallbackInvoked ''widgets/button'' ''/proj/src/app.scss'']
         @ map ReadFile (relativeFiles project ''widgets/button'' ''/proj/src/app.scss'' None)
         @ [FallbackInvoked ''widgets/button'' ''/proj/src/app.scss''],
       Done (ReturnError
         (if existsSync project ''/proj/src/app.scss''
          then notFoundMessage ''widgets/button''
                 (relativeFiles project ''widgets/button'' ''/proj/src/app.scss'' None)
          else ''Could not import '' @ ''widgets/button'' @ '' from '' @ ''/proj/src/app.scss'')))"
    by blast
  then show ?thesis by (simp add: files relative real)
qed

text \<open>
  Claim C1 as stated fails: here no module-relative candidate exists, a candidate of the
  relative attempt does exist on disk, and yet the fallback resolver is invoked, its
  answer is the result, and the relative candidate is never read.
\<close>

theorem fallback_after_relative_counterexample:
  "MODULE_PARSER ''widgets/button'' = Some (''widgets'', ''button'')
   \<and> modules_access hosted ''widgets'' ''/proj/src/app.scss'' = Some widgets
   \<and> sassDir widgets = Some ''/proj/node_modules/widgets/sass''
   \<and> moduleFiles hosted ''widgets'' ''button'' ''/proj/node_modules/widgets/sass'' =
       [''/proj/node_modules/widgets/sass/button.scss'',
        ''/proj/node_modules/widgets/sass/widgets/button.scss'']
   \<and> readFileSync hosted ''/proj/node_modules/widgets/sass/button.scss'' = None
   \<and> readFileSync hosted ''/proj/node_modules/widgets/sass/widgets/button.scss'' = None
   \<and> relativeFiles hosted ''widgets/button'' ''/proj/src/app.scss'' None =
       [''/proj/src/widgets/button.scss'']
   \<and> readFileSync hosted ''/proj/src/widgets/button.scss'' = Some ''button { }''
   \<and> ModuleImporter hosted ''widgets/button'' ''/proj/src/app.scss'' =
       ([Access ''widgets'' ''/proj/src/app.scss'',
         ReadFile ''/proj/node_modules/widgets/sass/button.scss'',
         ReadFile ''/proj/node_modules/widgets/sass/widgets/button.scss'',
         FallbackInvoked ''widgets/button'' ''/proj/src/app.scss''],
        Done (ReturnFile elsewhere))"
  by code_simp

lemma importFrom_relative:
  "\<not> truthy sd \<Longrightarrow>
   importFrom e uri prev moduleName relativePath sd = handleRelativeImports e uri prev (includePaths e)"
  by (simp add: importFrom_def)

lemma relative_miss_run:
  assumes "fallbackImporter e uri prev = SassNULL"
    and "\<forall>f\<in>set (relativeFiles e uri prev includes). readFileSync e f = None"
  shows "handleRelativeImports e uri prev includes =
     (map ReadFile (relativeFiles e uri prev includes) @ [FallbackInvoked uri prev],
      Done (ReturnError
             (if existsSync e prev then notFoundMessage uri (relativeFiles e uri prev includes)
              else ''Could not import '' @ uri @ '' from '' @ prev)))"
  using assms
  by (simp add: handleRelativeImports_unreadable fallback_unfold after_after after_pair)

lemma importFrom_miss:
  assumes silent: "fallbackImporter e uri prev = SassNULL"
    and moduleMiss: "truthy sd \<longrightarrow>
           (\<forall>f\<in>set (moduleFiles e moduleName relativePath (str sd)). readFileSync e f = None)"
    and relativeMiss: "\<forall>f\<in>set (relativeFiles e uri prev (if truthy sd then None else includePaths e)).
           readFileSync e f = None"
  shows "importFrom e uri prev moduleName relativePath sd =
     ((if truthy sd
       then map ReadFile (moduleFiles e moduleName relativePath (str sd)) @ [FallbackInvoked uri prev]
       else [])
      @ map ReadFile (relativeFiles e uri prev (if truthy sd then None else includePaths e))
      @ [FallbackInvoked uri prev],
      Done (ReturnError
             (if existsSync e prev
              then notFoundMessage uri
                     (relativeFiles e uri prev (if truthy sd then None else includePaths e))
              else ''Could not import '' @ uri @ '' from '' @ prev)))"
proof (cases "truthy sd")
  case True
  with moduleMiss relativeMiss have
    m: "\<forall>f\<in>set (moduleFiles e moduleName relativePath (str sd)). readFileSync e f = None"
    and r: "\<forall>f\<in>set (relativeFiles e uri prev None). readFileSync e f = None"
    by simp_all
  show ?thesis
    using True silent
    by (simp add: importFrom_module_unreadable[OF True m] relative_miss_run[OF silent r]
        fallback_unfold after_after after_pair)
next
  case False
  with relativeMiss have
    r: "\<forall>f\<in>set (relativeFiles e uri prev (includePaths e)). readFileSync e f = None"
    by simp
  show ?thesis
    using False by (simp add: importFrom_relative relative_miss_run[OF silent r])
qed

text \<open>
  Claim C5, as the code has it. When nothing can be read and the fallback resolver reports
  nothing (and the configuration error for a module without a stylesheet directory does
  not apply), the error delivered is, for a requesting file that is a real file, the
  not-found message of the last attempt, which mentions every candidate of that relative
  attempt; the candidates of the module-relative attempt were read as well but are not
  part of it. For a requesting file that is not a real file the message is
  \<open>Could not import <identifier> from <requesting file>\<close>.
\<close>

theorem not_found_message_lists_last_attempt:
  assumes parsed: "MODULE_PARSER uri = Some (parsedName, parsedPath)"
    and looked: "lookupModule e parsedName parsedPath (if existsSync e prev then prev else root e)
                   = (calls, moduleName, relativePath, found)"
    and applies: "existsSync e prev \<or> found = None \<or> truthy (declaredDir found)"
    and silent: "fallbackImporter e uri prev = SassNULL"
    and moduleMiss: "truthy (declaredDir found) \<longrightarrow>
           (\<forall>f\<in>set (moduleFiles e moduleName relativePath (str (declaredDir found))).
              readFileSync e f = None)"
    and relativeMiss:
          "\<forall>f\<in>set (relativeFiles e uri prev
                       (if truthy (declaredDir found) then None else includePaths e)).
              readFileSync e f = None"
  shows "snd (ModuleImporter e uri prev) =
           Done (ReturnError
                  (if existsSync e prev
                   then notFoundMessage uri
                          (relativeFiles e uri prev
                             (if truthy (declaredDir found) then None else includePaths e))
                   else ''Could not import '' @ uri @ '' from '' @ prev))
         \<and> probed (fst (ModuleImporter e uri prev)) =
             (if truthy (declaredDir found)
              then moduleFiles e moduleName relativePath (str (declaredDir found)) else [])
             @ relativeFiles e uri prev
                 (if truthy (declaredDir found) then None else includePaths e)
         \<and> (\<forall>f\<in>set (relativeFiles e uri prev
                         (if truthy (declaredDir found) then None else includePaths e)).
               mentions
                 (notFoundMessage uri
                    (relativeFiles e uri prev
                       (if truthy (declaredDir found) then None else includePaths e)))
                 f)"
proof -
  have run: "ModuleImporter e uri prev =
      after calls (importFrom e uri prev moduleName relativePath (declaredDir found))"
  proof (cases found)
    case None
    then show ?thesis
      using ModuleImporter_unfold[OF parsed looked] by (simp add: declaredDir_def)
  next
    case (Some m)
    with applies have "existsSync e prev \<or> truthy (sassDir m)"
      by (simp add: declaredDir_def)
    with Some show ?thesis
      using ModuleImporter_unfold[OF parsed looked] by (auto simp: declaredDir_def)
  qed
  have quiet: "probed calls = []"
    using looked by (auto simp: lookupModule_def Let_def split: option.splits if_splits)
  note miss = importFrom_miss[OF silent moduleMiss relativeMiss]
  show ?thesis
    unfolding run miss
    by (simp add: after_pair probed_append probed_reads quiet notFoundMessage_mentions)
qed


theorem not_found_message_lists_last_attempt_witness:
  "snd (ModuleImporter project ''widgets/button'' ''/proj/src/app.scss'') =
     Done (ReturnError (notFoundMessage ''widgets/button'' [''/proj/src/widgets/button.scss'']))
   \<and> probed (fst (ModuleImporter project ''widgets/button'' ''/proj/src/app.scss'')) =
       [''/proj/node_modules/widgets/sass/button.scss'',
        ''/proj/node_modules/widgets/sass/widgets/button.scss'',
        ''/proj/src/widgets/button.scss'']
   \<and> mentions (notFoundMessage ''widgets/button'' [''/proj/src/widgets/button.scss''])
       ''/proj/src/widgets/button.scss''"
proof -
  have parsed: "MODULE_PARSER ''widgets/button'' = Some (''widgets'', ''button'')"
    by code_simp
  have looked: "lookupModule project ''widgets'' ''button''
                  (if existsSync project ''/proj/src/app.scss'' then ''/proj/src/app.scss''
                   else root project)
                = ([Access ''widgets'' ''/proj/src/app.scss''], ''widgets'', ''button'', Some widgets)"
    by code_simp
  have real: "existsSync project ''/proj/src/app.scss''"
    by code_simp
  then have applies: "existsSync project ''/proj/src/app.scss'' \<or> Some widgets = None
      \<or> truthy (declaredDir (Some widgets))"
    by simp
  have silent: "fallbackImporter project ''widgets/button'' ''/proj/src/app.scss'' = SassNULL"
    by code_simp
  have declared: "truthy (declaredDir (Some widgets))"
    by code_simp
  have files: "moduleFiles project ''widgets'' ''button'' (str (declaredDir (Some widgets))) =
      [''/proj/node_modules/widgets/sass/button.scss'',
       ''/proj/node_modules/widgets/sass/widgets/button.scss'']"
    by code_simp
  have moduleMiss: "truthy (declaredDir (Some widgets)) \<longrightarrow>
      (\<forall>f\<in>set (moduleFiles project ''widgets'' ''button'' (str (declaredDir (Some widgets)))).
         readFileSync project f = None)"
    by code_simp
  have relative: "relativeFiles project ''widgets/button'' ''/proj/src/app.scss''
                    (if truthy (declaredDir (Some widgets)) then None else includePaths project)
                  = [''/proj/src/widgets/button.scss'']"
    by code_simp
  have relativeMiss:
    "\<forall>f\<in>set (relativeFiles project ''widgets/button'' ''/proj/src/app.scss''
                 (if truthy (declaredDir (Some widgets)) then None else includePaths project)).
        readFileSync project f = None"
    by code_simp
  from not_found_message_lists_last_attempt
         [OF parsed looked applies silent moduleMiss relativeMiss]
  show ?thesis
    unfolding relative files using real declared by simp
qed

text \<open>
  Claim C5 as stated fails twice: for a requesting file that is not on disk the message
  names no candidate at all, and for one that is on disk it leaves out the candidates of
  the module-relative attempt.
\<close>

theorem not_found_message_counterexample:
  "snd (ModuleImporter project ''widgets/button'' ''stdin'') =
     Done (ReturnError ''Could not import widgets/button from stdin'')
   \<and> probed (fst (ModuleImporter project ''widgets/button'' ''stdin'')) =
       [''/proj/node_modules/widgets/sass/button.scss'',
        ''/proj/node_modules/widgets/sass/widgets/button.scss'',
        ''/proj/widgets/button.scss'']
   \<and> \<not> mentions ''Could not import widgets/button from stdin'' ''/proj/widgets/button.scss''
   \<and> snd (ModuleImporter project ''widgets/button'' ''/proj/src/app.scss'') =
       Done (ReturnError (notFoundMessage ''widgets/button'' [''/proj/src/widgets/button.scss'']))
   \<and> probed (fst (ModuleImporter project ''widgets/button'' ''/proj/src/app.scss'')) =
       [''/proj/node_modules/widgets/sass/button.scss'',
        ''/proj/node_modules/widgets/sass/widgets/button.scss'',
        ''/proj/src/widgets/button.scss'']
   \<and> \<not> mentions (notFoundMessage ''widgets/button'' [''/proj/src/widgets/button.scss''])
         ''/proj/node_modules/widgets/sass/button.scss''"
  by code_simp

text \<open>
  Claim C8, as the code has it. When the module lookup succeeds, the record declares no
  stylesheet directory and the requesting file is not a real file, the fallback resolver
  is invoked with the original identifier; its answer, if usable, is the result, and
  otherwise the import fails with the configuration error, whose message names the module,
  its package.json and, when present, its main path.
\<close>

theorem missing_directory_error_after_fallback:
  assumes parsed: "MODULE_PARSER uri = Some (parsedName, parsedPath)"
    and looked: "lookupModule e parsedName parsedPath (if existsSync e prev then prev else root e)
                   = (calls, moduleName, relativePath, Some m)"
    and undeclared: "\<not> truthy (sassDir m)"
    and unreal: "\<not> existsSync e prev"
  shows "ModuleImporter e uri prev =
           (calls @ [FallbackInvoked uri prev],
            Done (if fallbackImporter e uri prev = SassNULL
                  then ReturnError (missingMessage m)
                  else fallbackImporter e uri prev))
         \<and> missingMessage m =
             ''sassDir is not specified in '' @ name m @ [CHR 0x27] @ ''s package.json''
             @ (case mainPath m of
                  None \<Rightarrow> []
                | Some main \<Rightarrow> if main = [] then [] else '' or '' @ main)"
proof -
  have "ModuleImporter e uri prev =
      after calls (fallback e uri prev ([], Done (ReturnError (missingMessage m))))"
    using ModuleImporter_unfold[OF parsed looked] undeclared unreal by simp
  then have "ModuleImporter e uri prev =
           (calls @ [FallbackInvoked uri prev],
            Done (if fallbackImporter e uri prev = SassNULL
                  then ReturnError (missingMessage m)
                  else fallbackImporter e uri prev))"
    by (simp add: fallback_unfold after_after after_pair)
  moreover have "missingMessage m =
             ''sassDir is not specified in '' @ name m @ [CHR 0x27] @ ''s package.json''
             @ (case mainPath m of
                  None \<Rightarrow> []
                | Some main \<Rightarrow> if main = [] then [] else '' or '' @ main)"
    by (simp add: missingMessage_def truthy_def str_def split: option.splits)
  ultimately show ?thesis by blast
qed

theorem missing_directory_error_after_fallback_witness:
  "ModuleImporter project ''plain/button'' ''stdin'' =
     ([Access ''plain'' ''/proj'', FallbackInvoked ''plain/button'' ''stdin''],
      Done (ReturnError (missingMessage plain)))
   \<and> missingMessage plain =
       ''sassDir is not specified in plain'' @ [CHR 0x27]
       @ ''s package.json or /proj/node_modules/plain/index.js''"
proof -
  have parsed: "MODULE_PARSER ''plain/button'' = Some (''plain'', ''button'')"
    by code_simp
  have looked: "lookupModule project ''plain'' ''button''
                  (if existsSync project ''stdin'' then ''stdin'' else root project)
                = ([Access ''plain'' ''/proj''], ''plain'', ''button'', Some plain)"
    by code_simp
  have undeclared: "\<not> truthy (sassDir plain)"
    by code_simp
  have unreal: "\<not> existsSync project ''stdin''"
    by code_simp
  have silent: "fallbackImporter project ''plain/button'' ''stdin'' = SassNULL"
    by code_simp
  have fields: "name plain = ''plain''"
    "mainPath plain = Some ''/proj/node_modules/plain/index.js''"
    by (simp_all add: plain_def)
  from missing_directory_error_after_fallback[OF parsed looked undeclared unreal]
  show ?thesis using silent fields by simp
qed

text \<open>
  Claim C8 as stated fails: the module is found without a stylesheet directory, the
  requesting file is not on disk, and the import succeeds with the fallback's answer.
\<close>

theorem missing_directory_error_counterexample:
  "MODULE_PARSER ''plain/button'' = Some (''plain'', ''button'')
   \<and> existsSync hosted ''stdin'' = False
   \<and> modules_access hosted ''plain'' ''/proj'' = Some plain
   \<and> sassDir plain = None
   \<and> ModuleImporter hosted ''plain/button'' ''stdin'' =
       ([Access ''plain'' ''/proj'', FallbackInvoked ''plain/button'' ''stdin''],
        Done (ReturnFile elsewhere))"
  by code_simp


section \<open>Properties of the back-compat lookup\<close>

lemma piece_first: "piece (split slash m) 0 = noSlash m"
proof -
  obtain rest where "split slash m = noSlash m # rest"
    using split_first[of slash m] by (auto simp: noSlash_def)
  then show ?thesis by (simp add: piece_def)
qed

lemma scoped_pieces:
  assumes "isScopedName m"
  shows "\<exists>b. split slash m = [noSlash m, b] \<and> m = noSlash m @ [slash] @ b"
proof -
  from assms obtain a b where ab: "split slash m = [a, b]"
    by (auto simp: isScopedName_def split: list.splits)
  obtain rest where "split slash m = noSlash m # rest"
    using split_first[of slash m] by (auto simp: noSlash_def)
  with ab have a: "a = noSlash m" by simp
  have "join [slash] (split slash m) = m" by (rule join_split)
  with ab a have "m = noSlash m @ [slash] @ b" by simp
  with ab a show ?thesis by blast
qed

lemma bare_noSlash: "isBareName m \<Longrightarrow> noSlash m = m"
  by (auto simp: isBareName_def noSlash_def takeWhile_eq_all_conv)

text \<open>
  Claim C3. When the parsed module name starts with \<open>@\<close> and the registry lookup
  fails, the lookup is retried exactly once, with the first slash-delimited segment alone
  as the module name, and the segment left over from the scoped name is put, with a
  slash, in front of the relative path. The calls made are the two lookups, in this
  order, for the same origin. For \<open>@scope/name/sub\<close> with no module \<open>@scope/name\<close> the
  retry is for module \<open>@scope\<close> with relative path \<open>name/sub\<close>.
\<close>

theorem scoped_name_retry:
  assumes parsed: "MODULE_PARSER uri = Some (moduleName, relativePath)"
    and marked: "take 1 moduleName = ''@''"
    and absent: "modules_access e moduleName origin = None"
  shows "\<exists>retried.
           lookupModule e moduleName relativePath origin =
             ([Access moduleName origin, Access (noSlash moduleName) origin],
              noSlash moduleName, retried, modules_access e (noSlash moduleName) origin)
           \<and> (\<forall>leftover. moduleName = noSlash moduleName @ [slash] @ leftover \<longrightarrow>
                  retried = leftover @ ''/'' @ relativePath)"
proof -
  let ?retried = "piece (split slash moduleName) 1 @ ''/'' @ relativePath"
  have run: "lookupModule e moduleName relativePath origin =
             ([Access moduleName origin, Access (noSlash moduleName) origin],
              noSlash moduleName, ?retried, modules_access e (noSlash moduleName) origin)"
    using marked absent by (simp add: lookupModule_def Let_def piece_first)
  have "?retried = leftover @ ''/'' @ relativePath"
    if split: "moduleName = noSlash moduleName @ [slash] @ leftover" for leftover
  proof -
    from MODULE_PARSER_Some[OF parsed] have "isScopedName moduleName \<or> isBareName moduleName"
      by blast
    then show ?thesis
    proof
      assume "isScopedName moduleName"
      from scoped_pieces[OF this] obtain b where
        b: "split slash moduleName = [noSlash moduleName, b]"
        and m: "moduleName = noSlash moduleName @ [slash] @ b" by blast
      from m split have "noSlash moduleName @ [slash] @ b = noSlash moduleName @ [slash] @ leftover"
        by simp
      then have "b = leftover" by simp
      with b show ?thesis by (simp add: piece_def)
    next
      assume "isBareName moduleName"
      then have "noSlash moduleName = moduleName" by (rule bare_noSlash)
      with split have "moduleName = moduleName @ [slash] @ leftover" by simp
      then show ?thesis by simp
    qed
  qed
  with run show ?thesis by blast
qed

theorem scoped_name_retry_witness:
  "lookupModule project ''@scope/name'' ''sub'' ''/proj'' =
     ([Access ''@scope/name'' ''/proj'', Access ''@scope'' ''/proj''], ''@scope'', ''name/sub'', None)"
proof -
  have parsed: "MODULE_PARSER ''@scope/name/sub'' = Some (''@scope/name'', ''sub'')"
    by code_simp
  have marked: "take 1 ''@scope/name'' = ''@''"
    by simp
  have absent: "modules_access project ''@scope/name'' ''/proj'' = None"
    by code_simp
  have first: "noSlash ''@scope/name'' = ''@scope''"
    by code_simp
  have again: "modules_access project ''@scope'' ''/proj'' = None"
    by code_simp
  have split: "''@scope/name'' = noSlash ''@scope/name'' @ [slash] @ ''name''"
    by code_simp
  from scoped_name_retry[OF parsed marked absent] obtain retried where
    run: "lookupModule project ''@scope/name'' ''sub'' ''/proj'' =
       ([Access ''@scope/name'' ''/proj'', Access (noSlash ''@scope/name'') ''/proj''],
        noSlash ''@scope/name'', retried, modules_access project (noSlash ''@scope/name'') ''/proj'')"
    and rel: "\<forall>leftover. ''@scope/name'' = noSlash ''@scope/name'' @ [slash] @ leftover \<longrightarrow>
                  retried = leftover @ ''/'' @ ''sub''"
    by blast
  from rel split have "retried = ''name'' @ ''/'' @ ''sub''" by blast
  with run first again show ?thesis by simp
qed

text \<open>
  A module name that starts with \<open>@\<close> and has one segment only has no segment left
  over: the same lookup is repeated, and the relative path computed is not used, since
  the import continues as a relative import.
\<close>

lemma lookupModule_single_segment:
  assumes "isBareName moduleName" and "take 1 moduleName = ''@''"
    and "modules_access e moduleName origin = None"
  shows "lookupModule e moduleName relativePath origin =
     ([Access moduleName origin, Access moduleName origin], moduleName,
      ''undefined/'' @ relativePath, None)"
proof -
  from assms(1) have "split slash moduleName = [moduleName]"
    by (simp add: isBareName_def split_no_sep)
  with assms show ?thesis
    by (simp add: lookupModule_def Let_def piece_def)
qed

lemma ModuleImporter_single_segment:
  assumes "MODULE_PARSER uri = Some (moduleName, relativePath)"
    and "isBareName moduleName" and "take 1 moduleName = ''@''"
    and "modules_access e moduleName (if existsSync e prev then prev else root e) = None"
  shows "ModuleImporter e uri prev =
     after [Access moduleName (if existsSync e prev then prev else root e),
            Access moduleName (if existsSync e prev then prev else root e)]
       (handleRelativeImports e uri prev (includePaths e))"
  using assms lookupModule_single_segment[OF assms(2) assms(3) assms(4)]
  by (simp add: ModuleImporter_def importFrom_def truthy_def)


section \<open>Properties of the virtual path scheme\<close>

lemma normalizeArray_segments:
  "[] \<notin> set acc \<Longrightarrow> [] \<notin> set (normalizeArray a acc xs)"
proof (induction a acc xs rule: normalizeArray.induct)
  case (1 a acc)
  then show ?case by simp
next
  case (2 a acc s ss)
  then show ?case by (auto split: list.splits if_splits)
qed

lemma join_first: "\<exists>rest. join s (x # xs) = x @ rest"
  by (cases xs) auto

lemma join_nonempty: "x \<noteq> [] \<Longrightarrow> join s (x # xs) \<noteq> []"
  using join_first[of s x xs] by auto

lemma path_resolve_nonempty: "path_resolve wd args \<noteq> []"
proof -
  have segs: "[] \<notin> set (resolveSegments wd args)"
    by (simp add: resolveSegments_def Let_def normalizeArray_segments)
  show ?thesis
  proof (cases "resolveSegments wd args")
    case Nil
    then show ?thesis by (simp add: path_resolve_def Let_def)
  next
    case (Cons x xs)
    with segs have "x \<noteq> []" by auto
    then have "join ''/'' (x # xs) \<noteq> []" by (rule join_nonempty)
    with Cons show ?thesis by (simp add: path_resolve_def Let_def)
  qed
qed

lemma split_append_sep: "split d (a @ d # r) = split d a @ split d r"
proof (induction a)
  case Nil
  show ?case by simp
next
  case (Cons c a)
  obtain p ps where "split d a = p # ps"
    using split_nonempty[of d a] by (cases "split d a") auto
  with Cons show ?case by simp
qed

lemma normalizeArray_append:
  "normalizeArray a acc (xs @ ys) = normalizeArray a (rev (normalizeArray a acc xs)) ys"
proof (induction a acc xs rule: normalizeArray.induct)
  case (1 a acc)
  show ?case by simp
next
  case (2 a acc s ss)
  then show ?case by (auto split: list.splits)
qed

lemma path_resolve_dot: "path_resolve wd [''.''] = path_resolve wd []"
proof (cases "wd = []")
  case True
  then show ?thesis
    by (simp add: path_resolve_def resolveSegments_def isAbsolute_def slash_def)
next
  case False
  have r1: "resolvedPath [wd, ''.''] = wd @ slash # ''./''"
    using False by (simp add: isAbsolute_def slash_def)
  have r0: "resolvedPath [wd] = wd @ slash # []"
    using False by (simp add: isAbsolute_def)
  have abs: "isAbsolute (wd @ slash # ''./'') = isAbsolute (wd @ slash # [])"
    using False by (cases wd) (auto simp: isAbsolute_def)
  have s1: "split slash (wd @ slash # ''./'') = split slash wd @ [''.'', []]"
    by (simp add: split_append_sep slash_def)
  have s0: "split slash (wd @ slash # []) = split slash wd @ [[]]"
    by (simp add: split_append_sep)
  have "normalizeArray a [] (split slash wd @ [''.'', []])
      = normalizeArray a [] (split slash wd @ [[]])" for a
    by (simp add: normalizeArray_append)
  then have "resolveSegments wd [''.''] = resolveSegments wd []"
    unfolding resolveSegments_def r1 r0 Let_def abs s1 s0 by simp
  then show ?thesis
    unfolding path_resolve_def Let_def r1 r0 abs by simp
qed

lemma fsURI_shape:
  "(fsURI uri = Some token) =
     (uri = ''fs('' @ token @ '')'' \<and> 2 \<le> length token
      \<and> identifierStart (hd token) \<and> list_all identifierChar (tl token))"
proof
  assume m: "fsURI uri = Some token"
  then have id: "token = butlast (drop 3 uri)" and t: "take 3 uri = ''fs(''"
    and ne: "drop 3 uri \<noteq> []" and l: "last uri = CHR '')''"
    and sh: "(case token of [] \<Rightarrow> False
             | c # cs \<Rightarrow> identifierStart c \<and> cs \<noteq> [] \<and> list_all identifierChar cs)"
    by (auto simp: fsURI_def Let_def split: if_splits)
  from ne have "last (drop 3 uri) = last uri" by (simp add: last_drop)
  with l ne id have "drop 3 uri = token @ '')''"
    by (metis append_butlast_last_id)
  then have "take 3 uri @ drop 3 uri = ''fs('' @ token @ '')''" using t by simp
  then have "uri = ''fs('' @ token @ '')''" by simp
  moreover from sh have "2 \<le> length token \<and> identifierStart (hd token)
      \<and> list_all identifierChar (tl token)"
    by (cases token) (auto simp: Suc_le_eq)
  ultimately show "uri = ''fs('' @ token @ '')'' \<and> 2 \<le> length token
      \<and> identifierStart (hd token) \<and> list_all identifierChar (tl token)" by blast
next
  assume a: "uri = ''fs('' @ token @ '')'' \<and> 2 \<le> length token
      \<and> identifierStart (hd token) \<and> list_all identifierChar (tl token)"
  then obtain c cs where ics: "token = c # cs" by (cases token) auto
  with a have "cs \<noteq> []" by auto
  with a ics show "fsURI uri = Some token"
    by (simp add: fsURI_def Let_def)
qed

text \<open>
  Claim C9. For an identifier of the shape \<open>fs(token)\<close> no file is read: the importer
  hands to import-once a synthesized stylesheet whose contents import \<open>eyeglass/fs\<close> and
  include \<open>fs-register-path\<close> with the token and the base directory in double quotes,
  under the file name \<open>fs:\<close>, the token, a colon and the base directory. The base
  directory is the project root when the token is \<open>root\<close> (the configured root being a
  non-empty path), otherwise the resolved directory of the requesting file when that
  file exists on disk, else the resolved working directory. For an identifier not of
  that shape the importer does nothing of its own and defers to the fallback, with
  \<open>sass.NULL\<close> as the result when the fallback reports nothing. The shape is the one
  the regular expression accepts: a token of at least two characters.
\<close>

theorem virtual_path_registration:
  "(\<forall>token dir.
      fsURI uri = Some token \<and> (token = ''root'' \<longrightarrow> root e \<noteq> [])
      \<and> dir = (if token = ''root'' then root e
               else if existsSync e prev then path_resolve (cwd e) [path_dirname prev]
               else path_resolve (cwd e) [''.'']) \<longrightarrow>
        FSImporter e uri prev =
          ([], ImportOnce
                 \<lparr>contents = ''@import '' @ [CHR 0x22] @ ''eyeglass/fs'' @ [CHR 0x22]
                              @ ''; @include fs-register-path('' @ token @ '', '' @ [CHR 0x22]
                              @ dir @ [CHR 0x22] @ '');'',
                  file = ''fs:'' @ token @ '':'' @ dir\<rparr>))
   \<and> path_resolve (cwd e) [''.''] = path_resolve (cwd e) []
   \<and> (fsURI uri = None \<longrightarrow>
        FSImporter e uri prev = fallback e uri prev ([], Done SassNULL)
        \<and> FSImporter e uri prev = ([FallbackInvoked uri prev], Done (fallbackImporter e uri prev)))
   \<and> (\<forall>token.
        (fsURI uri = Some token) =
          (uri = ''fs('' @ token @ '')'' \<and> 2 \<le> length token
           \<and> identifierStart (hd token) \<and> list_all identifierChar (tl token)))"
proof -
  have matched: "FSImporter e uri prev =
          ([], ImportOnce
                 \<lparr>contents = ''@import '' @ [CHR 0x22] @ ''eyeglass/fs'' @ [CHR 0x22]
                              @ ''; @include fs-register-path('' @ token @ '', '' @ [CHR 0x22]
                              @ dir @ [CHR 0x22] @ '');'',
                  file = ''fs:'' @ token @ '':'' @ dir\<rparr>)"
    if "fsURI uri = Some token" and "token = ''root'' \<longrightarrow> root e \<noteq> []"
      and "dir = (if token = ''root'' then root e
               else if existsSync e prev then path_resolve (cwd e) [path_dirname prev]
               else path_resolve (cwd e) [''.''])"
    for token dir
    using that by (simp add: FSImporter_def Let_def path_resolve_nonempty registration_def)
  have other: "FSImporter e uri prev = fallback e uri prev ([], Done SassNULL)
        \<and> FSImporter e uri prev = ([FallbackInvoked uri prev], Done (fallbackImporter e uri prev))"
    if "fsURI uri = None"
    using that
    by (simp add: FSImporter_def fallback_def emit_def split: ImporterReturnType.splits)
  from matched other path_resolve_dot fsURI_shape show ?thesis by blast
qed

theorem virtual_path_registration_witness:
  "FSImporter project ''fs(root)'' ''stdin'' =
     ([], ImportOnce
            \<lparr>contents = ''@import '' @ [CHR 0x22] @ ''eyeglass/fs'' @ [CHR 0x22]
                         @ ''; @include fs-register-path(root, '' @ [CHR 0x22]
                         @ ''/proj'' @ [CHR 0x22] @ '');'',
             file = ''fs:root:/proj''\<rparr>)
   \<and> FSImporter project ''fs(assets)'' ''/proj/src/app.scss'' =
       ([], ImportOnce
              \<lparr>contents = ''@import '' @ [CHR 0x22] @ ''eyeglass/fs'' @ [CHR 0x22]
                           @ ''; @include fs-register-path(assets, '' @ [CHR 0x22]
                           @ ''/proj/src'' @ [CHR 0x22] @ '');'',
               file = ''fs:assets:/proj/src''\<rparr>)
   \<and> FSImporter (project\<lparr>cwd := ''/home/user''\<rparr>) ''fs(assets)'' ''stdin'' =
       ([], ImportOnce
              \<lparr>contents = ''@import '' @ [CHR 0x22] @ ''eyeglass/fs'' @ [CHR 0x22]
                           @ ''; @include fs-register-path(assets, '' @ [CHR 0x22]
                           @ ''/home/user'' @ [CHR 0x22] @ '');'',
               file = ''fs:assets:/home/user''\<rparr>)
   \<and> FSImporter project ''widgets/button'' ''stdin'' =
       ([FallbackInvoked ''widgets/button'' ''stdin''], Done SassNULL)"
proof -
  have m1: "fsURI ''fs(root)'' = Some ''root'' \<and> (''root'' = ''root'' \<longrightarrow> root project \<noteq> [])
      \<and> ''/proj'' = (if ''root'' = ''root'' then root project
               else if existsSync project ''stdin''
                    then path_resolve (cwd project) [path_dirname ''stdin'']
               else path_resolve (cwd project) [''.''])"
    by code_simp
  have m2: "fsURI ''fs(assets)'' = Some ''assets''
      \<and> (''assets'' = ''root'' \<longrightarrow> root project \<noteq> [])
      \<and> ''/proj/src'' = (if ''assets'' = ''root'' then root project
               else if existsSync project ''/proj/src/app.scss''
                    then path_resolve (cwd project) [path_dirname ''/proj/src/app.scss'']
               else path_resolve (cwd project) [''.''])"
    by code_simp
  have m3: "fsURI ''fs(assets)'' = Some ''assets''
      \<and> (''assets'' = ''root'' \<longrightarrow> root (project\<lparr>cwd := ''/home/user''\<rparr>) \<noteq> [])
      \<and> ''/home/user'' = (if ''assets'' = ''root'' then root (project\<lparr>cwd := ''/home/user''\<rparr>)
               else if existsSync (project\<lparr>cwd := ''/home/user''\<rparr>) ''stdin''
                    then path_resolve (cwd (project\<lparr>cwd := ''/home/user''\<rparr>)) [path_dirname ''stdin'']
               else path_resolve (cwd (project\<lparr>cwd := ''/home/user''\<rparr>)) [''.''])"
    by code_simp
  have m4: "fsURI ''widgets/button'' = None"
    by code_simp
  have silent: "fallbackImporter project ''widgets/button'' ''stdin'' = SassNULL"
    by code_simp
  from virtual_path_registration[of "''fs(root)''" project "''stdin''"] m1
  have a: "FSImporter project ''fs(root)'' ''stdin'' =
     ([], ImportOnce
            \<lparr>contents = ''@import '' @ [CHR 0x22] @ ''eyeglass/fs'' @ [CHR 0x22]
                         @ ''; @include fs-register-path('' @ ''root'' @ '', '' @ [CHR 0x22]
                         @ ''/proj'' @ [CHR 0x22] @ '');'',
             file = ''fs:'' @ ''root'' @ '':'' @ ''/proj''\<rparr>)"
    by blast
  from virtual_path_registration[of "''fs(assets)''" project "''/proj/src/app.scss''"] m2
  have b: "FSImporter project ''fs(assets)'' ''/proj/src/app.scss'' =
     ([], ImportOnce
            \<lparr>contents = ''@import '' @ [CHR 0x22] @ ''eyeglass/fs'' @ [CHR 0x22]
                         @ ''; @include fs-register-path('' @ ''assets'' @ '', '' @ [CHR 0x22]
                         @ ''/proj/src'' @ [CHR 0x22] @ '');'',
             file = ''fs:'' @ ''assets'' @ '':'' @ ''/proj/src''\<rparr>)"
    by blast
  from virtual_path_registration[of "''fs(assets)''" "project\<lparr>cwd := ''/home/user''\<rparr>" "''stdin''"] m3
  have c: "FSImporter (project\<lparr>cwd := ''/home/user''\<rparr>) ''fs(assets)'' ''stdin'' =
     ([], ImportOnce
            \<lparr>contents = ''@import '' @ [CHR 0x22] @ ''eyeglass/fs'' @ [CHR 0x22]
                         @ ''; @include fs-register-path('' @ ''assets'' @ '', '' @ [CHR 0x22]
                         @ ''/home/user'' @ [CHR 0x22] @ '');'',
             file = ''fs:'' @ ''assets'' @ '':'' @ ''/home/user''\<rparr>)"
    by blast
  from virtual_path_registration[of "''widgets/button''" project "''stdin''"] m4
  have "FSImporter project ''widgets/button'' ''stdin'' =
       ([FallbackInvoked ''widgets/button'' ''stdin''],
        Done (fallbackImporter project ''widgets/button'' ''stdin''))"
    by blast
  then have d: "FSImporter project ''widgets/button'' ''stdin'' =
       ([FallbackInvoked ''widgets/button'' ''stdin''], Done SassNULL)"
    using silent by simp
  from a b c d show ?thesis by simp
qed


section \<open>Properties of the sandbox\<close>

lemma stripCommon_Nil: "stripCommon [] ys = ([], ys)"
  by (cases ys) simp_all

lemma stripCommon_shape:
  "stripCommon xs ys = (up, down) \<Longrightarrow>
   \<exists>common. xs = common @ up \<and> ys = common @ down
     \<and> (up = [] \<or> down = [] \<or> hd up \<noteq> hd down)"
proof (induction xs arbitrary: ys)
  case Nil
  then have "[] = [] @ up \<and> ys = [] @ down \<and> (up = [] \<or> down = [] \<or> hd up \<noteq> hd down)"
    by (simp add: stripCommon_Nil)
  then show ?case by blast
next
  case (Cons x xs)
  show ?case
  proof (cases ys)
    case Nil
    with Cons.prems have "x # xs = [] @ up \<and> ys = [] @ down
        \<and> (up = [] \<or> down = [] \<or> hd up \<noteq> hd down)"
      by auto
    then show ?thesis by blast
  next
    case (Cons y ys')
    show ?thesis
    proof (cases "x = y")
      case True
      with Cons Cons.prems have "stripCommon xs ys' = (up, down)" by simp
      from Cons.IH[OF this] obtain common where "xs = common @ up" "ys' = common @ down"
        "up = [] \<or> down = [] \<or> hd up \<noteq> hd down" by blast
      with True Cons have "x # xs = (x # common) @ up \<and> ys = (x # common) @ down
         \<and> (up = [] \<or> down = [] \<or> hd up \<noteq> hd down)" by simp
      then show ?thesis by blast
    next
      case False
      with Cons Cons.prems have "x # xs = [] @ up \<and> ys = [] @ down \<and> hd up \<noteq> hd down"
        by auto
      then show ?thesis by blast
    qed
  qed
qed

lemma stripCommon_below: "stripCommon xs (xs @ ys) = ([], ys)"
proof (induction xs)
  case Nil
  show ?case by (cases ys) auto
next
  case (Cons x xs)
  then show ?case by simp
qed

lemma stripCommon_escapes:
  assumes "stripCommon xs ys = (up, down)" and "up \<noteq> []"
  shows "ys \<noteq> xs @ below"
proof
  assume "ys = xs @ below"
  then have "stripCommon xs ys = ([], below)" by (simp add: stripCommon_below)
  with assms show False by simp
qed

lemma take2_dots: "up \<noteq> [] \<Longrightarrow> take 2 (join ''/'' (map (\<lambda>_. ''..'') up @ down)) = ''..''"
proof -
  assume "up \<noteq> []"
  then obtain u us where "up = u # us" by (cases up) auto
  then have "map (\<lambda>_. ''..'') up @ down = ''..'' # (map (\<lambda>_. ''..'') us @ down)" by simp
  with join_first[of "''/''" "''..''" "map (\<lambda>_. ''..'') us @ down"]
  obtain rest where "join ''/'' (map (\<lambda>_. ''..'') up @ down) = ''..'' @ rest" by auto
  then show ?thesis by simp
qed

lemma take2_segment:
  assumes "seg \<noteq> []"
  shows "(take 2 (join ''/'' (seg # below)) = ''..'') = (take 2 seg = ''..'')"
proof (cases seg)
  case Nil
  with assms show ?thesis by simp
next
  case (Cons c cs)
  show ?thesis
  proof (cases cs)
    case Nil
    with Cons show ?thesis by (cases below) auto
  next
    case (Cons d ds)
    obtain rest where "join ''/'' (seg # below) = seg @ rest"
      using join_first by blast
    with Cons \<open>seg = c # cs\<close> show ?thesis by simp
  qed
qed

lemma resolveSegments_segments: "[] \<notin> set (resolveSegments wd args)"
  by (simp add: resolveSegments_def Let_def normalizeArray_segments)

text \<open>
  What the test of one root decides: the path is admitted exactly when its resolved
  segments are those of the root followed by nothing, or by segments of which the first
  does not start with two dots.
\<close>

lemma pathInSandboxDir_iff:
  "pathInSandboxDir wd fsPath sandboxDir =
     (\<exists>below. resolveSegments wd [fsPath] = resolveSegments wd [sandboxDir] @ below
        \<and> (below = [] \<or> take 2 (hd below) \<noteq> ''..''))"
proof -
  obtain up down where sc:
    "stripCommon (resolveSegments wd [sandboxDir]) (resolveSegments wd [fsPath]) = (up, down)"
    by (cases "stripCommon (resolveSegments wd [sandboxDir]) (resolveSegments wd [fsPath])")
  then have rel: "path_relative wd sandboxDir fsPath = join ''/'' (map (\<lambda>_. ''..'') up @ down)"
    by (simp add: path_relative_def)
  show ?thesis
  proof (cases "up = []")
    case False
    then have "\<not> pathInSandboxDir wd fsPath sandboxDir"
      by (simp add: pathInSandboxDir_def rel take2_dots)
    moreover have "resolveSegments wd [fsPath] \<noteq> resolveSegments wd [sandboxDir] @ below"
      for below using stripCommon_escapes[OF sc False] .
    ultimately show ?thesis by blast
  next
    case True
    with stripCommon_shape[OF sc] have
      below: "resolveSegments wd [fsPath] = resolveSegments wd [sandboxDir] @ down" by auto
    have "pathInSandboxDir wd fsPath sandboxDir = (down = [] \<or> take 2 (hd down) \<noteq> ''..'')"
    proof (cases down)
      case Nil
      with True show ?thesis by (simp add: pathInSandboxDir_def rel)
    next
      case (Cons seg rest)
      with below resolveSegments_segments[of wd "[fsPath]"] have "seg \<noteq> []" by auto
      with Cons True show ?thesis
        by (simp add: pathInSandboxDir_def rel take2_segment)
    qed
    with below show ?thesis by auto
  qed
qed

lemma inSandbox_unrestricted: "fsSandbox e = None \<Longrightarrow> inSandbox e fsPath"
  by (simp add: inSandbox_def)

lemma inSandbox_allow_list:
  "fsSandbox e = Some roots \<Longrightarrow>
   inSandbox e fsPath = (\<exists>r\<in>set roots. take 2 (path_relative (cwd e) r fsPath) \<noteq> ''..'')"
  by (simp add: inSandbox_def pathInSandboxDir_def list_ex_iff)

lemma root_itself_permitted:
  "resolveSegments wd [fsPath] = resolveSegments wd [sandboxDir] \<Longrightarrow>
   pathInSandboxDir wd fsPath sandboxDir"
  by (simp add: pathInSandboxDir_iff)

lemma outside_root_denied:
  "\<forall>below. resolveSegments wd [fsPath] \<noteq> resolveSegments wd [sandboxDir] @ below \<Longrightarrow>
   \<not> pathInSandboxDir wd fsPath sandboxDir"
  by (simp add: pathInSandboxDir_iff)

text \<open>
  Claim C10, as the code has it. A path that lies inside a root \<open>r\<close> and whose first
  segment below \<open>r\<close> starts with two dots is not admitted through \<open>r\<close>, because the
  test is on the first two characters of the relative path. It is denied as a security
  violation when \<open>r\<close> is the only root, and in general whenever no other root of the
  allow-list admits it.
\<close>

theorem dotted_segment_denied:
  assumes inside: "resolveSegments (cwd e) [fsPath] = resolveSegments (cwd e) [r] @ seg # below"
    and dotted: "take 2 seg = ''..''"
  shows "\<not> pathInSandboxDir (cwd e) fsPath r
     \<and> (fsSandbox e = Some [r] \<longrightarrow>
          \<not> inSandbox e fsPath
          \<and> eyeglass_fs_exists e (SassString fsPath) = Returned (accessViolation fsPath))
     \<and> (\<forall>roots. fsSandbox e = Some roots
            \<and> (\<forall>sb\<in>set roots. sb \<noteq> r \<longrightarrow> \<not> pathInSandboxDir (cwd e) fsPath sb) \<longrightarrow>
          \<not> inSandbox e fsPath
          \<and> eyeglass_fs_exists e (SassString fsPath) = Returned (accessViolation fsPath))"
proof -
  have denied: "\<not> pathInSandboxDir (cwd e) fsPath r"
  proof
    assume "pathInSandboxDir (cwd e) fsPath r"
    then obtain b where b: "resolveSegments (cwd e) [fsPath] = resolveSegments (cwd e) [r] @ b"
      and ok: "b = [] \<or> take 2 (hd b) \<noteq> ''..''"
      unfolding pathInSandboxDir_iff by blast
    from b inside have "b = seg # below" by simp
    with ok dotted show False by simp
  qed
  have all: "\<not> inSandbox e fsPath
      \<and> eyeglass_fs_exists e (SassString fsPath) = Returned (accessViolation fsPath)"
    if cfg: "fsSandbox e = Some roots"
      and others: "\<forall>sb\<in>set roots. sb \<noteq> r \<longrightarrow> \<not> pathInSandboxDir (cwd e) fsPath sb"
    for roots
  proof -
    have "\<not> pathInSandboxDir (cwd e) fsPath sb" if "sb \<in> set roots" for sb
    proof (cases "sb = r")
      case True
      with denied show ?thesis by simp
    next
      case False
      with others that show ?thesis by simp
    qed
    then have "\<not> list_ex (\<lambda>sb. if pathInSandboxDir (cwd e) fsPath sb then True else False) roots"
      by (simp add: list_ex_iff)
    with cfg have "\<not> inSandbox e fsPath" by (simp add: inSandbox_def)
    then show ?thesis by (simp add: eyeglass_fs_exists_def)
  qed
  have single: "\<not> inSandbox e fsPath
      \<and> eyeglass_fs_exists e (SassString fsPath) = Returned (accessViolation fsPath)"
    if cfg: "fsSandbox e = Some [r]"
  proof -
    have "\<forall>sb\<in>set [r]. sb \<noteq> r \<longrightarrow> \<not> pathInSandboxDir (cwd e) fsPath sb" by simp
    with cfg show ?thesis by (rule all)
  qed
  show ?thesis
  proof (intro conjI allI impI)
    show "\<not> pathInSandboxDir (cwd e) fsPath r" by (rule denied)
  next
    assume "fsSandbox e = Some [r]"
    then show "\<not> inSandbox e fsPath" using single by blast
  next
    assume "fsSandbox e = Some [r]"
    then show "eyeglass_fs_exists e (SassString fsPath) = Returned (accessViolation fsPath)"
      using single by blast
  next
    fix roots
    assume "fsSandbox e = Some roots
            \<and> (\<forall>sb\<in>set roots. sb \<noteq> r \<longrightarrow> \<not> pathInSandboxDir (cwd e) fsPath sb)"
    then show "\<not> inSandbox e fsPath" using all by blast
  next
    fix roots
    assume "fsSandbox e = Some roots
            \<and> (\<forall>sb\<in>set roots. sb \<noteq> r \<longrightarrow> \<not> pathInSandboxDir (cwd e) fsPath sb)"
    then show "eyeglass_fs_exists e (SassString fsPath) = Returned (accessViolation fsPath)"
      using all by blast
  qed
qed

theorem dotted_segment_denied_witness:
  "\<not> pathInSandboxDir (cwd project) ''/srv/www/..foo'' ''/srv/www''
   \<and> \<not> inSandbox project ''/srv/www/..foo''
   \<and> eyeglass_fs_exists project (SassString ''/srv/www/..foo'') =
       Returned (accessViolation ''/srv/www/..foo'')"
proof -
  have inside: "resolveSegments (cwd project) [''/srv/www/..foo''] =
      resolveSegments (cwd project) [''/srv/www''] @ ''..foo'' # []"
    by code_simp
  have dotted: "take 2 ''..foo'' = ''..''"
    by simp
  have cfg: "fsSandbox project = Some [''/srv/www'']"
    by code_simp
  from dotted_segment_denied[OF inside dotted] cfg show ?thesis by blast
qed

text \<open>
  Claim C10 as stated fails for an allow-list that holds the root and a directory above
  it: the path is inside \<open>/srv/www\<close>, its first segment below starts with two dots, and
  it is admitted through \<open>/srv\<close>.
\<close>

theorem dotted_segment_admitted_counterexample:
  "fsSandbox nested = Some [''/srv/www'', ''/srv'']
   \<and> resolveSegments (cwd nested) [''/srv/www''] = [''srv'', ''www'']
   \<and> resolveSegments (cwd nested) [''/srv/www/..foo''] = [''srv'', ''www'', ''..foo'']
   \<and> path_join [''/srv/www'', ''..foo''] = ''/srv/www/..foo''
   \<and> inSandbox nested ''/srv/www/..foo'' = True
   \<and> eyeglass_fs_exists nested (SassString ''/srv/www/..foo'') =
       Returned (Value (SassBoolean False))"
  by code_simp

text \<open>
  Claim C2 at a path strictly inside the only allowed root: the relative path is
  \<open>..cache/logo.png\<close>, which does not leave the root, yet the path is denied.
\<close>

theorem path_inside_root_denied:
  "fsSandbox project = Some [''/srv/www'']
   \<and> resolveSegments (cwd project) [''/srv/www''] = [''srv'', ''www'']
   \<and> resolveSegments (cwd project) [''/srv/www/..cache/logo.png''] =
       [''srv'', ''www'', ''..cache'', ''logo.png'']
   \<and> path_relative (cwd project) ''/srv/www'' ''/srv/www/..cache/logo.png'' = ''..cache/logo.png''
   \<and> pathInSandboxDir (cwd project) ''/srv/www/..cache/logo.png'' ''/srv/www'' = False
   \<and> inSandbox project ''/srv/www/..cache/logo.png'' = False
   \<and> eyeglass_fs_exists project (SassString ''/srv/www/..cache/logo.png'') =
       Returned (accessViolation ''/srv/www/..cache/logo.png'')"
  by code_simp


section \<open>Properties of the URI constructor\<close>

lemma rUriFragments_None:
  "(rUriFragments uri = None) = (uri = [] \<or> hd uri = CHR ''?'' \<or> hd uri = CHR ''#'')"
proof (cases uri)
  case Nil
  then show ?thesis by (simp add: rUriFragments_def)
next
  case (Cons c cs)
  then show ?thesis by (auto simp: rUriFragments_def Let_def)
qed

lemma rUriFragments_path:
  "rUriFragments uri = Some (pathPart, query, fragment) \<Longrightarrow>
   pathPart = takeWhile (\<lambda>c. c \<noteq> CHR ''?'' \<and> c \<noteq> CHR ''#'') uri \<and> pathPart \<noteq> []"
  by (auto simp: rUriFragments_def Let_def split: if_splits)

lemma newURI_throws:
  "(newURI notDisabled uri separator = Inl TypeError) =
     (uri = [] \<or> hd uri = CHR ''?'' \<or> hd uri = CHR ''#'')"
proof -
  have "(newURI notDisabled uri separator = Inl TypeError) = (rUriFragments uri = None)"
    by (auto simp: newURI_def split: option.splits)
  then show ?thesis by (simp add: rUriFragments_None)
qed

text \<open>
  Claim C6 at the inputs where it fails. The constructor reads the groups of the match
  without testing it, so it throws where the regular expression finds no path part: on
  the empty string and on a string that starts with \<open>?\<close> or \<open>#\<close>, and on no other
  input. \<open>URI.join\<close>, which drops the empty fragments, throws when all of them are empty.
\<close>

theorem uri_constructor_throws:
  "newURI notDisabled [] separator = Inl TypeError
   \<and> newURI notDisabled ''?a=1'' separator = Inl TypeError
   \<and> newURI notDisabled ''#top'' separator = Inl TypeError
   \<and> URI_join notDisabled [[], []] = Inl TypeError
   \<and> (\<forall>uri. (newURI notDisabled uri separator = Inl TypeError) =
               (uri = [] \<or> hd uri = CHR ''?'' \<or> hd uri = CHR ''#''))"
proof -
  have "newURI notDisabled [] None = Inl TypeError"
    by (simp add: newURI_throws)
  then have "URI_join notDisabled [[], []] = Inl TypeError"
    by (simp add: URI_join_def)
  then show ?thesis by (simp add: newURI_throws)
qed

section \<open>Properties of the file-system functions\<close>

lemma typeError_message:
  "typeError expected (Inr v) =
     SassError (''Expected '' @ expected @ '', got '' @ typeName v @ '': '' @ toString v)"
  by (simp add: typeError_def)

lemma exists_validates:
  "\<forall>s. v \<noteq> SassString s \<Longrightarrow>
   eyeglass_fs_exists e v = Returned (typeError ''string'' (Inr v))"
  by (cases v) (simp_all add: eyeglass_fs_exists_def)

lemma list_files_validates:
  "(\<forall>s. d \<noteq> SassString s) \<Longrightarrow>
   eyeglass_fs_list_files e l d g = Returned (typeError ''string'' (Inr d))"
  "d = SassString t \<Longrightarrow> (\<forall>s. g \<noteq> SassString s) \<Longrightarrow>
   eyeglass_fs_list_files e l d g = Returned (typeError ''string'' (Inr g))"
  by (cases d; cases g; simp add: eyeglass_fs_list_files_def)+

lemma list_directories_validates:
  "(\<forall>s. d \<noteq> SassString s) \<Longrightarrow>
   eyeglass_fs_list_directories e l d g = Returned (typeError ''string'' (Inr d))"
  "d = SassString t \<Longrightarrow> (\<forall>s. g \<noteq> SassString s) \<Longrightarrow>
   eyeglass_fs_list_directories e l d g = Returned (typeError ''string'' (Inr g))"
  by (cases d; cases g; simp add: eyeglass_fs_list_directories_def)+

text \<open>
  Claim C7 at the function where it fails. \<open>eyeglass-fs-join\<close> hands its segments to
  \<open>path.join\<close> without validating them: whatever the arguments, it returns a string or
  throws, and never a type-mismatch error value, while \<open>eyeglass-fs-exists\<close> and the
  listing functions return one for an argument that is not a string.
\<close>

theorem join_returns_no_type_error:
  "eyeglass_fs_join l segments \<noteq> Returned (typeError expected actual)
   \<and> eyeglass_fs_join l (SassList [SassString ''a'', SassNumber ''1'' []] True) \<noteq>
       Returned (typeError ''string'' (Inr (SassNumber ''1'' [])))
   \<and> eyeglass_fs_exists e (SassNumber ''1'' []) =
       Returned (SassError ''Expected string, got number: 1'')"
proof -
  have never: "eyeglass_fs_join l s \<noteq> Returned (typeError x a)" for s x a
    by (simp add: eyeglass_fs_join_def typeError_def split: option.splits)
  have "eyeglass_fs_exists e (SassNumber ''1'' []) =
       Returned (SassError ''Expected string, got number: 1'')"
    by (simp add: eyeglass_fs_exists_def typeError_def)
  with never show ?thesis by blast
qed


end
